theory Spec2Isabelle
  imports Complex_Main "HOL-Library.Sublist" "HOL-Library.Word"
begin

section \<open>Platform values and functions\<close>

text \<open>
  Keys, tokens, ids and messages are strings of 8-bit characters. Titles and search text,
  which the user types, are JavaScript strings in full: sequences of UTF-16 code units
  (\<open>js_string\<close>). The numbers of the token check and of the plan tiers are epoch seconds
  and byte counts divided by a power of two, where double arithmetic is exact; they are
  reals. The numbers of the storage summary go through a rounding division and
  multiplication; they are \<open>js_number\<close>, with the double operations as parameters.
\<close>

datatype js_value =
    JUndefined
  | JNull
  | JBool bool
  | JNum real
  | JStr string
  | JArr "js_value list"
  | JObj "(string \<times> js_value) list"

record user =
  user_id :: string
  firstName :: string
  lastName :: string
  email :: string

text \<open>
  The browser functions the services call are not part of the repository; they are taken
  as parameters. \<open>None\<close> is a thrown exception (\<open>atob\<close> on a string that is not
  base64, \<open>JSON.parse\<close> on a string that is not JSON), and for \<open>ToNumber\<close> it is NaN.
  \<open>JSON_parse_user\<close> is \<open>JSON.parse\<close> at the type \<open>User | null\<close> of
  \<open>getUserFromStorage\<close>; \<open>JSON_stringify\<close> is \<open>JSON.stringify\<close> on a user.
  \<open>ToNumber\<close> is only consulted for strings and objects.
\<close>

record platform =
  atob :: "string \<Rightarrow> string option"
  JSON_parse :: "string \<Rightarrow> js_value option"
  JSON_parse_user :: "string \<Rightarrow> user option option"
  JSON_stringify :: "user \<Rightarrow> string"
  ToNumber :: "js_value \<Rightarrow> real option"

text \<open>\<open>s.split(sep)\<close> for a one-character separator: never the empty list.\<close>

fun split_on :: "char \<Rightarrow> string \<Rightarrow> string list" where
  "split_on sep [] = [[]]"
| "split_on sep (c # cs) =
     (if c = sep then [] # split_on sep cs
      else (case split_on sep cs of
              [] \<Rightarrow> [[c]]
            | p # ps \<Rightarrow> (c # p) # ps))"

text \<open>
  \<open>payload.exp\<close>: reading a property of \<open>null\<close> or \<open>undefined\<close> throws a TypeError
  (\<open>None\<close>); primitives and arrays have no property of that name.
\<close>

fun get_property :: "js_value \<Rightarrow> string \<Rightarrow> js_value option" where
  "get_property JUndefined k = None"
| "get_property JNull k = None"
| "get_property (JObj kvs) k = (case map_of kvs k of None \<Rightarrow> Some JUndefined | Some v \<Rightarrow> Some v)"
| "get_property v k = Some JUndefined"

text \<open>\<open>!v\<close>: the values that convert to \<open>false\<close>.\<close>

fun falsy :: "js_value \<Rightarrow> bool" where
  "falsy JUndefined = True"
| "falsy JNull = True"
| "falsy (JBool b) = (\<not> b)"
| "falsy (JNum x) = (x = 0)"
| "falsy (JStr s) = (s = [])"
| "falsy v = False"

text \<open>\<open>v < t\<close> for a number \<open>t\<close>: the operand is converted to a number, NaN compares false.\<close>

fun less_than_number :: "(js_value \<Rightarrow> real option) \<Rightarrow> js_value \<Rightarrow> real \<Rightarrow> bool" where
  "less_than_number tn (JNum x) t = (x < t)"
| "less_than_number tn (JBool b) t = ((if b then 1 else 0) < t)"
| "less_than_number tn JNull t = (0 < t)"
| "less_than_number tn JUndefined t = False"
| "less_than_number tn v t = (case tn v of None \<Rightarrow> False | Some x \<Rightarrow> x < t)"

type_synonym js_string = "16 word list"

text \<open>A Latin-1 literal as code units.\<close>

definition utf16 :: "string \<Rightarrow> js_string" where
  "utf16 s = map (\<lambda>c. of_nat (of_char c)) s"

text \<open>
  The code units \<open>trim\<close> strips: the WhiteSpace and LineTerminator code points of the
  language, each one code unit.
\<close>

definition isWhiteSpace :: "16 word \<Rightarrow> bool" where
  "isWhiteSpace c =
     (c \<in> {0x0009, 0x000A, 0x000B, 0x000C, 0x000D, 0x0020, 0x00A0, 0x1680,
            0x2000, 0x2001, 0x2002, 0x2003, 0x2004, 0x2005, 0x2006, 0x2007, 0x2008, 0x2009,
            0x200A, 0x2028, 0x2029, 0x202F, 0x205F, 0x3000, 0xFEFF})"

definition trim :: "js_string \<Rightarrow> js_string" where
  "trim s = rev (dropWhile isWhiteSpace (rev (dropWhile isWhiteSpace s)))"

text \<open>\<open>s.includes(q)\<close>: scan the start positions of \<open>s\<close> from the left.\<close>

fun str_includes :: "'a list \<Rightarrow> 'a list \<Rightarrow> bool" where
  "str_includes [] q = (q = [])"
| "str_includes (c # cs) q = (prefix q (c # cs) \<or> str_includes cs q)"

text \<open>
  \<open>String.prototype.toLowerCase\<close> follows the Unicode case mappings, which look at the
  context of a letter (the Greek final sigma) and can change the length of a string. It
  is a browser function and is taken as a parameter, \<open>lc\<close>, of the functions that
  call it.
\<close>

subsection \<open>Numbers of the storage summary\<close>

text \<open>
  A double: a finite value, an infinity or NaN. The division and the multiplication of
  doubles round; they are parameters. \<open>js_min\<close> and \<open>js_max\<close> are \<open>Math.min\<close> and
  \<open>Math.max\<close> of two numbers.
\<close>

datatype js_number = Fin real | PosInf | NegInf | NaN

record double_arith =
  fdiv :: "js_number \<Rightarrow> js_number \<Rightarrow> js_number"
  fmul :: "js_number \<Rightarrow> js_number \<Rightarrow> js_number"

fun js_min :: "js_number \<Rightarrow> js_number \<Rightarrow> js_number" where
  "js_min NaN b = NaN"
| "js_min a NaN = NaN"
| "js_min NegInf b = NegInf"
| "js_min a NegInf = NegInf"
| "js_min PosInf b = b"
| "js_min a PosInf = a"
| "js_min (Fin x) (Fin y) = Fin (min x y)"

fun js_max :: "js_number \<Rightarrow> js_number \<Rightarrow> js_number" where
  "js_max NaN b = NaN"
| "js_max a NaN = NaN"
| "js_max PosInf b = PosInf"
| "js_max a PosInf = PosInf"
| "js_max NegInf b = b"
| "js_max a NegInf = a"
| "js_max (Fin x) (Fin y) = Fin (max x y)"

text \<open>
  What the quota percentage needs of IEEE 754 arithmetic: the quotient of a non-negative
  finite number by a positive finite one, and the product of a non-negative finite number
  with 100, are non-negative finite numbers or overflow to \<open>+Infinity\<close>, and
  \<open>+Infinity\<close> times 100 is \<open>+Infinity\<close>.
\<close>

definition sign_correct :: "double_arith \<Rightarrow> bool" where
  "sign_correct ar =
     ((\<forall>x y. 0 \<le> x \<and> 0 < y \<longrightarrow>
          fdiv ar (Fin x) (Fin y) = PosInf \<or> (\<exists>z. 0 \<le> z \<and> fdiv ar (Fin x) (Fin y) = Fin z))
      \<and> (\<forall>z. 0 \<le> z \<longrightarrow>
          fmul ar (Fin z) (Fin 100) = PosInf \<or> (\<exists>w. 0 \<le> w \<and> fmul ar (Fin z) (Fin 100) = Fin w))
      \<and> fmul ar PosInf (Fin 100) = PosInf)"

section \<open>AuthService\<close>

text \<open>
  The service's state: the durable store, the value of the user stream, the
  logout-in-progress flag, and the number of \<open>then\<close> callbacks that \<open>logout\<close> has
  registered on navigations that have not settled yet. \<open>history\<close> lists, in order, every
  write the service has made to the store, the stream, the flag and the router.
\<close>

datatype action =
    WriteFlag bool
  | RemoveItem string
  | SetItem string string
  | Publish "user option"
  | Navigate string

record auth_state =
  localStorage :: "string \<Rightarrow> string option"
  currentUserSubject :: "user option"
  isLoggingOut :: bool
  pendingThen :: nat
  history :: "action list"

definition TOKEN_KEY :: string where
  "TOKEN_KEY = ''token''"

definition USER_KEY :: string where
  "USER_KEY = ''user''"

definition removeItem :: "string \<Rightarrow> auth_state \<Rightarrow> auth_state" where
  "removeItem k s =
     s\<lparr>localStorage := (localStorage s)(k := None), history := history s @ [RemoveItem k]\<rparr>"

definition setItem :: "string \<Rightarrow> string \<Rightarrow> auth_state \<Rightarrow> auth_state" where
  "setItem k v s =
     s\<lparr>localStorage := (localStorage s)(k \<mapsto> v), history := history s @ [SetItem k v]\<rparr>"

definition subject_next :: "user option \<Rightarrow> auth_state \<Rightarrow> auth_state" where
  "subject_next u s = s\<lparr>currentUserSubject := u, history := history s @ [Publish u]\<rparr>"

definition router_navigate :: "string \<Rightarrow> auth_state \<Rightarrow> auth_state" where
  "router_navigate route s = s\<lparr>history := history s @ [Navigate route]\<rparr>"

definition set_isLoggingOut :: "bool \<Rightarrow> auth_state \<Rightarrow> auth_state" where
  "set_isLoggingOut b s = s\<lparr>isLoggingOut := b, history := history s @ [WriteFlag b]\<rparr>"

text \<open>
  \<open>logout()\<close>. The \<open>then\<close> callback of the navigation is not run here: it is counted in
  \<open>pendingThen\<close> and runs when the navigation settles.
\<close>

definition logout :: "auth_state \<Rightarrow> auth_state" where
  "logout s =
     (if isLoggingOut s then s
      else
        let s1 = set_isLoggingOut True s;
            s2 = removeItem TOKEN_KEY s1;
            s3 = removeItem USER_KEY s2;
            s4 = subject_next None s3;
            s5 = router_navigate ''/login'' s4
        in s5\<lparr>pendingThen := Suc (pendingThen s5)\<rparr>)"

text \<open>The navigation promise of a logout is fulfilled: its callback clears the flag.\<close>

definition navigation_settled :: "auth_state \<Rightarrow> auth_state" where
  "navigation_settled s =
     (if pendingThen s = 0 then s
      else set_isLoggingOut False (s\<lparr>pendingThen := pendingThen s - 1\<rparr>))"

definition getToken :: "auth_state \<Rightarrow> string option" where
  "getToken s = localStorage s TOKEN_KEY"

definition getUser :: "auth_state \<Rightarrow> user option" where
  "getUser s = currentUserSubject s"

text \<open>\<open>Math.floor(Date.now() / 1000)\<close>, from the clock in milliseconds.\<close>

definition currentTime :: "int \<Rightarrow> int" where
  "currentTime now_ms = now_ms div 1000"

definition isTokenExpired :: "platform \<Rightarrow> int \<Rightarrow> string \<Rightarrow> bool" where
  "isTokenExpired pf now_ms token =
     (let parts = split_on CHR ''.'' token in
      if length parts \<noteq> 3 then True
      else
        (case atob pf (parts ! 1) of
           None \<Rightarrow> True
         | Some decoded \<Rightarrow>
             (case JSON_parse pf decoded of
                None \<Rightarrow> True
              | Some payload \<Rightarrow>
                  (case get_property payload ''exp'' of
                     None \<Rightarrow> True
                   | Some e \<Rightarrow>
                       if falsy e then True
                       else less_than_number (ToNumber pf) e (real_of_int (currentTime now_ms))))))"

definition isAuthenticated :: "platform \<Rightarrow> int \<Rightarrow> auth_state \<Rightarrow> bool \<times> auth_state" where
  "isAuthenticated pf now_ms s =
     (if isLoggingOut s then (False, s)
      else
        (case getToken s of
           None \<Rightarrow> (False, s)
         | Some token \<Rightarrow>
             if token = [] then (False, s)
             else if isTokenExpired pf now_ms token then (False, logout s)
             else (True, s)))"

definition handleAuthSuccess :: "platform \<Rightarrow> string \<Rightarrow> user \<Rightarrow> auth_state \<Rightarrow> auth_state" where
  "handleAuthSuccess pf accessToken u s =
     subject_next (Some u)
       (setItem USER_KEY (JSON_stringify pf u) (setItem TOKEN_KEY accessToken s))"

definition getUserFromStorage :: "platform \<Rightarrow> auth_state \<Rightarrow> user option \<times> auth_state" where
  "getUserFromStorage pf s =
     (case localStorage s USER_KEY of
        None \<Rightarrow> (None, s)
      | Some userStr \<Rightarrow>
          if userStr = [] then (None, s)
          else
            (case JSON_parse_user pf userStr of
               Some u \<Rightarrow> (u, s)
             | None \<Rightarrow> (None, removeItem USER_KEY s)))"

text \<open>
  Construction of the service over the durable store it finds: the field initialisers
  run in order, the user stream starts at \<open>getUserFromStorage()\<close>.
\<close>

definition new_AuthService :: "platform \<Rightarrow> (string \<Rightarrow> string option) \<Rightarrow> auth_state" where
  "new_AuthService pf store =
     (let s0 = \<lparr>localStorage = store, currentUserSubject = None, isLoggingOut = False,
                pendingThen = 0, history = []\<rparr>
      in case getUserFromStorage pf s0 of
           (u, s1) \<Rightarrow> s1\<lparr>currentUserSubject := u\<rparr>)"

section \<open>ErrorInterceptor\<close>

record http_error =
  status :: nat
  error_text :: "string option"

text \<open>
  The handler passed to \<open>catchError\<close>. Its result is the notification the caller of the
  request receives (\<open>Inl\<close>: the error of \<open>throwError\<close>) and the service's new state.
\<close>

definition intercept_catchError ::
    "platform \<Rightarrow> int \<Rightarrow> http_error \<Rightarrow> auth_state \<Rightarrow> (http_error + js_value) \<times> auth_state" where
  "intercept_catchError pf now_ms err s =
     (let s' =
        (if status err = 401 then
           (case isAuthenticated pf now_ms s of
              (True, s1) \<Rightarrow> logout s1
            | (False, s1) \<Rightarrow> router_navigate ''/login'' s1)
         else s)
      in (Inl err, s'))"

section \<open>MediaService\<close>

definition getPlanDisplayName :: "real \<Rightarrow> string" where
  "getPlanDisplayName quotaBytes =
     (let gb = quotaBytes / (1024 * 1024 * 1024) in
      if gb \<le> 5 then ''Free Plan''
      else if gb \<le> 100 then ''Pro Plan''
      else ''Enterprise Plan'')"

definition GiB :: real where
  "GiB = 1024 ^ 3"

text \<open>
  A media item as the component reads it. The fields the component never reads or writes
  (\<open>blob\<close>, \<open>status\<close>, \<open>createdAt\<close>, \<open>trashedAt\<close>) are left out.
\<close>

record media_item =
  item_id :: string
  item_type :: string
  title :: js_string
  sizeBytes :: real
  isFavorite :: bool
  isDeleted :: bool

record storage_summary =
  usedBytes :: js_number
  quotaBytes :: js_number

record media_filters =
  filter_type :: "string option"
  filter_favorites :: "bool option"
  filter_trash :: "bool option"

text \<open>The requests of \<open>MediaService\<close>, one constructor per method.\<close>

datatype request =
    GET_media media_filters
  | POST_upload string string
  | PATCH_favorite string bool
  | PATCH_trash string bool
  | DELETE_media string
  | GET_storage

text \<open>
  What a request can come back with: the item list of \<open>getMedia\<close>, the body of a
  mutation (upload, favorite, trash, delete) with the storage summary it may carry, the
  summary of \<open>getStorageSummary\<close>, or an error response.
\<close>

datatype response =
    Items "media_item list"
  | Mutated "storage_summary option"
  | Summary storage_summary
  | Failed http_error

section \<open>HomeComponent\<close>

text \<open>
  Item objects live in \<open>heap\<close> and are named by their index there: \<open>mediaItems\<close>,
  \<open>filteredItems\<close> and the callbacks of pending requests hold references to the same
  objects, and a toggle writes to the object. \<open>subscriptions\<close> are the requests that have
  not come back, each with the callbacks subscribed to it; \<open>dispatched\<close> lists every
  request the component has sent. The audio player (\<open>nowPlaying\<close>) and the
  \<open>currentUser\<close> mirror are left out.
\<close>

datatype callbacks =
    OnLoad
  | OnUpload string
  | OnFavorite nat bool
  | OnTrash nat bool
  | OnDelete nat
  | OnStorage

record home_state =
  heap :: "media_item list"
  mediaItems :: "nat list"
  filteredItems :: "nat list"
  activeTab :: string
  searchQuery :: js_string
  isLoading :: bool
  uploadingFiles :: "string set"
  operatingItems :: "string set"
  uploadProgress :: "string \<Rightarrow> real option"
  uploadError :: "string option"
  storageSummary :: "storage_summary option"
  storageLoading :: bool
  subscriptions :: "(request \<times> callbacks) list"
  dispatched :: "request list"
  alerts :: "string list"
  auth :: auth_state

definition dispatch :: "request \<Rightarrow> callbacks \<Rightarrow> home_state \<Rightarrow> home_state" where
  "dispatch req k s =
     s\<lparr>subscriptions := subscriptions s @ [(req, k)], dispatched := dispatched s @ [req]\<rparr>"

definition tab_filters :: "string \<Rightarrow> media_filters" where
  "tab_filters tab =
     (let none = \<lparr>filter_type = None, filter_favorites = None, filter_trash = None\<rparr> in
      if tab = ''photos'' then none\<lparr>filter_type := Some ''photo''\<rparr>
      else if tab = ''videos'' then none\<lparr>filter_type := Some ''video''\<rparr>
      else if tab = ''audio'' then none\<lparr>filter_type := Some ''audio''\<rparr>
      else if tab = ''favorites'' then none\<lparr>filter_favorites := Some True\<rparr>
      else if tab = ''trash'' then none\<lparr>filter_trash := Some True\<rparr>
      else none)"

definition loadMedia :: "home_state \<Rightarrow> home_state" where
  "loadMedia s = dispatch (GET_media (tab_filters (activeTab s))) OnLoad (s\<lparr>isLoading := True\<rparr>)"

definition setActiveTab :: "string \<Rightarrow> home_state \<Rightarrow> home_state" where
  "setActiveTab tab s = loadMedia (s\<lparr>activeTab := tab\<rparr>)"

definition applySearch :: "(js_string \<Rightarrow> js_string) \<Rightarrow> home_state \<Rightarrow> home_state" where
  "applySearch lc s =
     (if trim (searchQuery s) = [] then s\<lparr>filteredItems := mediaItems s\<rparr>
      else
        let query = trim (lc (searchQuery s)) in
        s\<lparr>filteredItems :=
             filter (\<lambda>r. str_includes (lc (title (heap s ! r))) query) (mediaItems s)\<rparr>)"

definition onSearch :: "(js_string \<Rightarrow> js_string) \<Rightarrow> home_state \<Rightarrow> home_state" where
  "onSearch lc s = applySearch lc s"

definition clearSearch :: "(js_string \<Rightarrow> js_string) \<Rightarrow> home_state \<Rightarrow> home_state" where
  "clearSearch lc s = applySearch lc (s\<lparr>searchQuery := []\<rparr>)"

text \<open>The \<open>next\<close> callback of \<open>loadMedia\<close>: the items of the response are new objects.\<close>

definition loadMedia_next ::
    "(js_string \<Rightarrow> js_string) \<Rightarrow> media_item list \<Rightarrow> home_state \<Rightarrow> home_state" where
  "loadMedia_next lc items s =
     (let s1 = s\<lparr>heap := heap s @ items,
                 mediaItems := [length (heap s) ..< length (heap s) + length items]\<rparr>
      in (applySearch lc s1)\<lparr>isLoading := False\<rparr>)"

definition loadMedia_error :: "http_error \<Rightarrow> home_state \<Rightarrow> home_state" where
  "loadMedia_error err s =
     (let s1 = (if status err = 401 then s\<lparr>auth := logout (auth s)\<rparr> else s)
      in s1\<lparr>isLoading := False\<rparr>)"

definition loadStorageSummary :: "home_state \<Rightarrow> home_state" where
  "loadStorageSummary s = dispatch GET_storage OnStorage (s\<lparr>storageLoading := True\<rparr>)"

definition loadStorageSummary_next :: "storage_summary \<Rightarrow> home_state \<Rightarrow> home_state" where
  "loadStorageSummary_next summary s = s\<lparr>storageSummary := Some summary, storageLoading := False\<rparr>"

definition loadStorageSummary_error :: "home_state \<Rightarrow> home_state" where
  "loadStorageSummary_error s = s\<lparr>storageLoading := False\<rparr>"

text \<open>
  \<open>uploadFile(file)\<close>: \<open>name\<close> is \<open>file.name\<close> and \<open>stamp\<close> the decimal text of
  \<open>Date.now()\<close>.
\<close>

definition uploadFile :: "string \<Rightarrow> string \<Rightarrow> home_state \<Rightarrow> home_state" where
  "uploadFile name stamp s =
     (let fileId = name @ ''-'' @ stamp in
      dispatch (POST_upload name name) (OnUpload fileId)
        (s\<lparr>uploadingFiles := insert fileId (uploadingFiles s),
           uploadProgress := (uploadProgress s)(fileId \<mapsto> 0),
           uploadError := None\<rparr>))"

definition uploadFile_next :: "string \<Rightarrow> storage_summary option \<Rightarrow> home_state \<Rightarrow> home_state" where
  "uploadFile_next fileId storage s =
     (let s1 = s\<lparr>uploadingFiles := uploadingFiles s - {fileId},
                 uploadProgress := (uploadProgress s)(fileId := None)\<rparr>;
          s2 = (case storage of
                  Some summary \<Rightarrow> s1\<lparr>storageSummary := Some summary\<rparr>
                | None \<Rightarrow> loadStorageSummary s1)
      in loadMedia s2)"

definition uploadFile_error :: "string \<Rightarrow> http_error \<Rightarrow> home_state \<Rightarrow> home_state" where
  "uploadFile_error fileId err s =
     (let s1 = s\<lparr>uploadingFiles := uploadingFiles s - {fileId},
                 uploadProgress := (uploadProgress s)(fileId := None)\<rparr>;
          msg =
            (if status err = 413 then
               (case error_text err of
                  Some m \<Rightarrow> if str_includes m ''quota'' then m
                            else ''File too large. Maximum size is 100MB.''
                | None \<Rightarrow> ''File too large. Maximum size is 100MB.'')
             else if status err = 400 then
               (case error_text err of
                  Some m \<Rightarrow> if m = [] then ''Invalid file. Please check the file type and try again.''
                            else m
                | None \<Rightarrow> ''Invalid file. Please check the file type and try again.'')
             else if status err = 401 then ''Authentication failed. Please log in again.''
             else ''Upload failed. Please try again.'')
      in s1\<lparr>uploadError := Some msg\<rparr>)"

definition toggleFavorite :: "nat \<Rightarrow> home_state \<Rightarrow> home_state" where
  "toggleFavorite r s =
     (let item = heap s ! r in
      if item_id item \<in> operatingItems s then s
      else
        let s1 = s\<lparr>operatingItems := insert (item_id item) (operatingItems s)\<rparr>;
            newFavoriteStatus = (\<not> isFavorite item)
        in dispatch (PATCH_favorite (item_id item) newFavoriteStatus)
             (OnFavorite r newFavoriteStatus) s1)"

definition toggleFavorite_next :: "nat \<Rightarrow> bool \<Rightarrow> home_state \<Rightarrow> home_state" where
  "toggleFavorite_next r newFavoriteStatus s =
     (let s1 = s\<lparr>heap := (heap s)[r := (heap s ! r)\<lparr>isFavorite := newFavoriteStatus\<rparr>]\<rparr>;
          s2 = s1\<lparr>operatingItems := operatingItems s1 - {item_id (heap s1 ! r)}\<rparr>
      in if activeTab s2 = ''favorites'' \<and> \<not> newFavoriteStatus then loadMedia s2 else s2)"

definition toggleFavorite_error :: "nat \<Rightarrow> home_state \<Rightarrow> home_state" where
  "toggleFavorite_error r s =
     s\<lparr>operatingItems := operatingItems s - {item_id (heap s ! r)},
       alerts := alerts s @ [''Failed to update favorite status. Please try again.'']\<rparr>"

definition toggleTrash :: "nat \<Rightarrow> home_state \<Rightarrow> home_state" where
  "toggleTrash r s =
     (let item = heap s ! r in
      if item_id item \<in> operatingItems s then s
      else
        let s1 = s\<lparr>operatingItems := insert (item_id item) (operatingItems s)\<rparr>;
            newTrashStatus = (\<not> isDeleted item)
        in dispatch (PATCH_trash (item_id item) newTrashStatus) (OnTrash r newTrashStatus) s1)"

definition toggleTrash_next ::
    "nat \<Rightarrow> bool \<Rightarrow> storage_summary option \<Rightarrow> home_state \<Rightarrow> home_state" where
  "toggleTrash_next r newTrashStatus storage s =
     (let s1 = s\<lparr>heap := (heap s)[r := (heap s ! r)\<lparr>isDeleted := newTrashStatus\<rparr>]\<rparr>;
          s2 = s1\<lparr>operatingItems := operatingItems s1 - {item_id (heap s1 ! r)}\<rparr>;
          s3 = (case storage of
                  Some summary \<Rightarrow> s2\<lparr>storageSummary := Some summary\<rparr>
                | None \<Rightarrow> s2)
      in if activeTab s3 \<noteq> ''trash'' \<and> newTrashStatus then loadMedia s3 else s3)"

definition toggleTrash_error :: "nat \<Rightarrow> home_state \<Rightarrow> home_state" where
  "toggleTrash_error r s =
     s\<lparr>operatingItems := operatingItems s - {item_id (heap s ! r)},
       alerts := alerts s @ [''Failed to move item to trash. Please try again.'']\<rparr>"

text \<open>\<open>deleteMedia(item)\<close>; \<open>confirmed\<close> is the user's answer to the \<open>confirm\<close> dialog.\<close>

definition deleteMedia :: "nat \<Rightarrow> bool \<Rightarrow> home_state \<Rightarrow> home_state" where
  "deleteMedia r confirmed s =
     (let item = heap s ! r in
      if item_id item \<in> operatingItems s then s
      else if confirmed then
        dispatch (DELETE_media (item_id item)) (OnDelete r)
          (s\<lparr>operatingItems := insert (item_id item) (operatingItems s)\<rparr>)
      else s)"

definition deleteMedia_next :: "nat \<Rightarrow> storage_summary option \<Rightarrow> home_state \<Rightarrow> home_state" where
  "deleteMedia_next r storage s =
     (let s1 = s\<lparr>operatingItems := operatingItems s - {item_id (heap s ! r)}\<rparr>;
          s2 = (case storage of
                  Some summary \<Rightarrow> s1\<lparr>storageSummary := Some summary\<rparr>
                | None \<Rightarrow> loadStorageSummary s1)
      in loadMedia s2)"

definition deleteMedia_error :: "nat \<Rightarrow> home_state \<Rightarrow> home_state" where
  "deleteMedia_error r s =
     s\<lparr>operatingItems := operatingItems s - {item_id (heap s ! r)},
       alerts := alerts s @ [''Failed to delete item. Please try again.'']\<rparr>"

definition isOperating :: "string \<Rightarrow> home_state \<Rightarrow> bool" where
  "isOperating itemId s = (itemId \<in> operatingItems s)"

text \<open>
  \<open>getStoragePercentage()\<close>, with the division and the multiplication of doubles in
  \<open>ar\<close>. \<open>quotaBytes === 0\<close> holds of both zeros, which are one value here.
\<close>

definition getStoragePercentage :: "double_arith \<Rightarrow> home_state \<Rightarrow> js_number" where
  "getStoragePercentage ar s =
     (case storageSummary s of
        None \<Rightarrow> Fin 0
      | Some summary \<Rightarrow>
          if quotaBytes summary = Fin 0 then Fin 0
          else js_min (Fin 100)
                 (fmul ar (fdiv ar (usedBytes summary) (quotaBytes summary)) (Fin 100)))"

text \<open>The component as constructed, and \<open>ngOnInit\<close>.\<close>

definition new_HomeComponent :: "auth_state \<Rightarrow> home_state" where
  "new_HomeComponent a =
     \<lparr>heap = [], mediaItems = [], filteredItems = [], activeTab = ''photos'',
      searchQuery = [], isLoading = False, uploadingFiles = {}, operatingItems = {},
      uploadProgress = (\<lambda>k. None), uploadError = None, storageSummary = None,
      storageLoading = False, subscriptions = [], dispatched = [], alerts = [], auth = a\<rparr>"

definition ngOnInit :: "home_state \<Rightarrow> home_state" where
  "ngOnInit s = loadStorageSummary (loadMedia s)"

subsection \<open>The component under events\<close>

text \<open>
  A response runs the callback subscribed to its request; a response whose shape is not
  the one of the request's type does not occur (\<open>None\<close>).
\<close>

fun deliver ::
    "(js_string \<Rightarrow> js_string) \<Rightarrow> callbacks \<Rightarrow> response \<Rightarrow> home_state \<Rightarrow> home_state option" where
  "deliver lc OnLoad (Items xs) s = Some (loadMedia_next lc xs s)"
| "deliver lc OnLoad (Failed e) s = Some (loadMedia_error e s)"
| "deliver lc (OnUpload fileId) (Mutated st) s = Some (uploadFile_next fileId st s)"
| "deliver lc (OnUpload fileId) (Failed e) s = Some (uploadFile_error fileId e s)"
| "deliver lc (OnFavorite r b) (Mutated st) s = Some (toggleFavorite_next r b s)"
| "deliver lc (OnFavorite r b) (Failed e) s = Some (toggleFavorite_error r s)"
| "deliver lc (OnTrash r b) (Mutated st) s = Some (toggleTrash_next r b st s)"
| "deliver lc (OnTrash r b) (Failed e) s = Some (toggleTrash_error r s)"
| "deliver lc (OnDelete r) (Mutated st) s = Some (deleteMedia_next r st s)"
| "deliver lc (OnDelete r) (Failed e) s = Some (deleteMedia_error r s)"
| "deliver lc OnStorage (Summary sm) s = Some (loadStorageSummary_next sm s)"
| "deliver lc OnStorage (Failed e) s = Some (loadStorageSummary_error s)"
| "deliver lc k resp s = None"

text \<open>The \<open>i\<close>-th pending request comes back with \<open>resp\<close>.\<close>

definition complete ::
    "(js_string \<Rightarrow> js_string) \<Rightarrow> nat \<Rightarrow> response \<Rightarrow> home_state \<Rightarrow> home_state option" where
  "complete lc i resp s =
     (if i < length (subscriptions s) then
        deliver lc (snd (subscriptions s ! i)) resp
          (s\<lparr>subscriptions := take i (subscriptions s) @ drop (Suc i) (subscriptions s)\<rparr>)
      else None)"

text \<open>
  What can happen to the component: the user acts on the page (on an item object that
  exists), or a pending request comes back.
\<close>

datatype event =
    SetActiveTab string
  | Search js_string
  | ClearSearch
  | Upload string string
  | ToggleFavorite nat
  | ToggleTrash nat
  | DeleteMedia nat bool
  | Response nat response

fun perform :: "(js_string \<Rightarrow> js_string) \<Rightarrow> event \<Rightarrow> home_state \<Rightarrow> home_state option" where
  "perform lc (SetActiveTab tab) s = Some (setActiveTab tab s)"
| "perform lc (Search q) s = Some (onSearch lc (s\<lparr>searchQuery := q\<rparr>))"
| "perform lc ClearSearch s = Some (clearSearch lc s)"
| "perform lc (Upload name stamp) s = Some (uploadFile name stamp s)"
| "perform lc (ToggleFavorite r) s = (if r < length (heap s) then Some (toggleFavorite r s) else None)"
| "perform lc (ToggleTrash r) s = (if r < length (heap s) then Some (toggleTrash r s) else None)"
| "perform lc (DeleteMedia r c) s = (if r < length (heap s) then Some (deleteMedia r c s) else None)"
| "perform lc (Response i resp) s = complete lc i resp s"

fun run :: "(js_string \<Rightarrow> js_string) \<Rightarrow> event list \<Rightarrow> home_state \<Rightarrow> home_state option" where
  "run lc [] s = Some s"
| "run lc (e # es) s = (case perform lc e s of None \<Rightarrow> None | Some s' \<Rightarrow> run lc es s')"

text \<open>The mutation a pending request makes on an item, by the item's id.\<close>

fun mutated_id :: "request \<Rightarrow> string option" where
  "mutated_id (PATCH_favorite i b) = Some i"
| "mutated_id (PATCH_trash i b) = Some i"
| "mutated_id (DELETE_media i) = Some i"
| "mutated_id req = None"

definition in_flight :: "string \<Rightarrow> home_state \<Rightarrow> nat" where
  "in_flight i s = length (filter (\<lambda>(req, k). mutated_id req = Some i) (subscriptions s))"

section \<open>AuthService under events\<close>

text \<open>
  What reaches the service between two moments: a call of \<open>logout()\<close> (the logout
  button, a component's own 401 handling), the settlement of a logout's navigation, and
  an error response passing through the interceptor at clock time \<open>now_ms\<close>.
\<close>

datatype auth_event =
    CallLogout
  | NavigationSettled
  | ErrorResponse int http_error

fun auth_step :: "platform \<Rightarrow> auth_event \<Rightarrow> auth_state \<Rightarrow> auth_state" where
  "auth_step pf CallLogout s = logout s"
| "auth_step pf NavigationSettled s = navigation_settled s"
| "auth_step pf (ErrorResponse now_ms err) s = snd (intercept_catchError pf now_ms err s)"

definition auth_run :: "platform \<Rightarrow> auth_event list \<Rightarrow> auth_state \<Rightarrow> auth_state" where
  "auth_run pf es s = foldl (\<lambda>st e. auth_step pf e st) s es"

text \<open>The logout cycles a history holds: each publishes \<open>null\<close> on the user stream once.\<close>

definition logout_cycles :: "action list \<Rightarrow> nat" where
  "logout_cycles h = length (filter (\<lambda>a. a = Publish None) h)"

text \<open>The writes of one clear-and-navigate sequence, in the order \<open>logout\<close> makes them.\<close>

definition logout_sequence :: "action list" where
  "logout_sequence =
     [WriteFlag True, RemoveItem TOKEN_KEY, RemoveItem USER_KEY, Publish None, Navigate ''/login'']"

section \<open>Sample data\<close>

text \<open>
  The concrete instances below run the services on these values. \<open>sample_platform\<close>
  tabulates \<open>atob\<close> and \<open>JSON.parse\<close> at the strings the instances decode (each
  payload segment is the base64 of the JSON text beside it) and rejects every other
  string; the one other string an instance parses is \<open>{bad\<close>, which
  \<open>JSON.parse\<close> rejects too. \<open>JSON_stringify\<close> writes the fields of a user
  without escapes, which is the text \<open>JSON.stringify\<close> gives for \<open>sample_user\<close>.
\<close>

definition sample_user :: user where
  "sample_user =
     \<lparr>user_id = ''123'', firstName = ''Test'', lastName = ''User'', email = ''test@example.com''\<rparr>"

definition sample_platform :: platform where
  "sample_platform =
     \<lparr>atob = (\<lambda>s. if s = ''eyJleHAiOjB9'' then Some ''{\"exp\":0}''
                   else if s = ''eyJleHAiOjE2MDAwMDAwMDB9'' then Some ''{\"exp\":1600000000}''
                   else if s = ''eyJleHAiOjIwMDAwMDAwMDB9'' then Some ''{\"exp\":2000000000}''
                   else None),
      JSON_parse = (\<lambda>s. if s = ''{\"exp\":0}'' then Some (JObj [(''exp'', JNum 0)])
                   else if s = ''{\"exp\":1600000000}'' then Some (JObj [(''exp'', JNum 1600000000)])
                   else if s = ''{\"exp\":2000000000}'' then Some (JObj [(''exp'', JNum 2000000000)])
                   else None),
      JSON_parse_user =
        (\<lambda>s. if s = ''{\"id\":\"123\",\"firstName\":\"Test\",\"lastName\":\"User\",\"email\":\"test@example.com\"}''
             then Some (Some sample_user) else None),
      JSON_stringify =
        (\<lambda>u. ''{\"id\":\"'' @ user_id u @ ''\",\"firstName\":\"'' @ firstName u
             @ ''\",\"lastName\":\"'' @ lastName u @ ''\",\"email\":\"'' @ email u @ ''\"}''),
      ToNumber = (\<lambda>v. None)\<rparr>"

text \<open>A token that expires in 2033, one that expired in 2020, and a clock in 2023.\<close>

definition live_token :: string where
  "live_token = ''h.eyJleHAiOjIwMDAwMDAwMDB9.s''"

definition stale_token :: string where
  "stale_token = ''eyJ0eXAiOiJKV1QiLCJhbGciOiJIUzI1NiJ9.eyJleHAiOjE2MDAwMDAwMDB9.invalid''"

definition sample_now :: int where
  "sample_now = 1700000000000"

text \<open>The service after a successful login over an empty store.\<close>

definition signed_in :: auth_state where
  "signed_in =
     handleAuthSuccess sample_platform live_token sample_user
       (new_AuthService sample_platform (\<lambda>k. None))"

text \<open>
  \<open>toLowerCase\<close> at the strings the instances lower: ASCII text, where it maps
  \<open>A\<close> to \<open>Z\<close> onto \<open>a\<close> to \<open>z\<close> and leaves the rest, and two Greek strings.
  Capital alpha, sigma, alpha lowers to small alpha, sigma, alpha; capital alpha, sigma
  lowers to small alpha, final sigma, because the sigma ends the word.
\<close>

definition sample_toLowerCase :: "js_string \<Rightarrow> js_string" where
  "sample_toLowerCase s =
     (if s = [0x0391, 0x03A3, 0x0391] then [0x03B1, 0x03C3, 0x03B1]
      else if s = [0x0391, 0x03A3] then [0x03B1, 0x03C2]
      else map (\<lambda>c. if 0x41 \<le> c \<and> c \<le> 0x5A then c + 0x20 else c) s)"

text \<open>
  The double operations at the numbers the instances use, where the exact quotient and
  product are doubles and so are what the operations return: division of finite numbers
  (by zero: an infinity, or NaN for \<open>0 / 0\<close>) and multiplication of a finite number or
  \<open>+Infinity\<close> with a finite number. No instance applies them to other infinities or
  to NaN.
\<close>

definition sample_arith :: double_arith where
  "sample_arith =
     \<lparr>fdiv = (\<lambda>a b. case (a, b) of
                (Fin x, Fin y) \<Rightarrow>
                  if y = 0 then (if x = 0 then NaN else if 0 < x then PosInf else NegInf)
                  else Fin (x / y)
              | _ \<Rightarrow> NaN),
      fmul = (\<lambda>a b. case (a, b) of
                (Fin x, Fin y) \<Rightarrow> Fin (x * y)
              | (PosInf, Fin y) \<Rightarrow> if 0 < y then PosInf else if y < 0 then NegInf else NaN
              | _ \<Rightarrow> NaN)\<rparr>"

definition sample_item :: media_item where
  "sample_item =
     \<lparr>item_id = ''m1'', item_type = ''photo'', title = utf16 ''Vacation.jpg'', sizeBytes = 1024,
      isFavorite = True, isDeleted = False\<rparr>"

text \<open>The home page after \<open>ngOnInit\<close>, both of its requests still pending.\<close>

definition home_opened :: home_state where
  "home_opened = ngOnInit (new_HomeComponent signed_in)"

text \<open>A 401 response.\<close>

definition unauthorized :: http_error where
  "unauthorized = \<lparr>status = 401, error_text = Some ''Unauthorized''\<rparr>"

text \<open>A durable store whose user entry does not parse, beside a token that is still good.\<close>

definition corrupted_store :: "string \<Rightarrow> string option" where
  "corrupted_store = [''token'' \<mapsto> live_token, ''user'' \<mapsto> ''{bad'']"

text \<open>A storage summary with a negative quota.\<close>

definition negative_quota :: storage_summary where
  "negative_quota = \<lparr>usedBytes = Fin 1, quotaBytes = Fin (- 1)\<rparr>"

text \<open>Three items, and the home page holding them with a search typed in.\<close>

definition library_items :: "media_item list" where
  "library_items =
     [sample_item,
      sample_item\<lparr>item_id := ''m2'', item_type := ''audio'', title := utf16 ''vacuum.mp3''\<rparr>,
      sample_item\<lparr>item_id := ''m3'', title := utf16 ''beach.png''\<rparr>]"

definition searching :: home_state where
  "searching =
     (loadMedia_next sample_toLowerCase library_items home_opened)\<lparr>searchQuery := utf16 '' VAC ''\<rparr>"

text \<open>
  An item titled with the Greek capitals alpha, sigma, alpha, and the home page holding it
  with the first two of them typed as the search.
\<close>

definition greek_item :: media_item where
  "greek_item = sample_item\<lparr>item_id := ''m4'', title := [0x0391, 0x03A3, 0x0391]\<rparr>"

definition greek_search :: home_state where
  "greek_search =
     (loadMedia_next sample_toLowerCase [greek_item] home_opened)\<lparr>searchQuery := [0x0391, 0x03A3]\<rparr>"

section \<open>The operation guard's invariant\<close>

text \<open>
  The ids that pending mutations act on, in dispatch order; the callbacks of a pending
  mutation hold an item object that exists and whose id is the id in the request; and
  the invariant: every pending request is so formed, no id is pending twice, and the
  guard holds exactly the pending ids. \<open>guard_open i\<close> is the invariant at the moment
  the request on \<open>i\<close> has come back and its callback has not yet cleared the guard.
\<close>

fun pending_ids :: "(request \<times> callbacks) list \<Rightarrow> string list" where
  "pending_ids [] = []"
| "pending_ids ((req, k) # xs) =
     (case mutated_id req of None \<Rightarrow> pending_ids xs | Some i \<Rightarrow> i # pending_ids xs)"

fun closure_ok :: "media_item list \<Rightarrow> request \<times> callbacks \<Rightarrow> bool" where
  "closure_ok h (req, OnFavorite r b) = (r < length h \<and> req = PATCH_favorite (item_id (h ! r)) b)"
| "closure_ok h (req, OnTrash r b) = (r < length h \<and> req = PATCH_trash (item_id (h ! r)) b)"
| "closure_ok h (req, OnDelete r) = (r < length h \<and> req = DELETE_media (item_id (h ! r)))"
| "closure_ok h (req, k) = (mutated_id req = None)"

definition guard_inv :: "home_state \<Rightarrow> bool" where
  "guard_inv s =
     (list_all (closure_ok (heap s)) (subscriptions s)
      \<and> distinct (pending_ids (subscriptions s))
      \<and> set (pending_ids (subscriptions s)) = operatingItems s)"

definition guard_open :: "string \<Rightarrow> home_state \<Rightarrow> bool" where
  "guard_open i s =
     (list_all (closure_ok (heap s)) (subscriptions s)
      \<and> distinct (pending_ids (subscriptions s))
      \<and> set (pending_ids (subscriptions s)) = operatingItems s - {i})"

text \<open>
  Event sequences on the home page: a double click on the favorite button followed by a
  click on the trash button, all before the first request comes back; restoring a trashed
  item on the trash tab; trashing and permanently deleting an item where the response
  carries no storage summary.
\<close>

definition double_click :: "event list" where
  "double_click = [Response 0 (Items library_items), ToggleFavorite 0, ToggleFavorite 0, ToggleTrash 0]"

definition trashed_item :: media_item where
  "trashed_item = sample_item\<lparr>isDeleted := True\<rparr>"

definition restore_in_trash :: "event list" where
  "restore_in_trash =
     [Response 0 (Items []), SetActiveTab ''trash'', Response 1 (Items [trashed_item]),
      ToggleTrash 0, Response 1 (Mutated None)]"

definition some_summary :: storage_summary where
  "some_summary = \<lparr>usedBytes = Fin 1024, quotaBytes = Fin 5368709120\<rparr>"

definition trash_without_summary :: "event list" where
  "trash_without_summary =
     [Response 0 (Items [sample_item]), Response 0 (Summary some_summary),
      ToggleTrash 0, Response 0 (Mutated None)]"

definition delete_without_summary :: "event list" where
  "delete_without_summary =
     [Response 0 (Items [sample_item]), Response 0 (Summary some_summary),
      DeleteMedia 0 True, Response 0 (Mutated None)]"

text \<open>The home page showing the three items on the photos tab.\<close>

definition browsing :: home_state where
  "browsing = loadMedia_next sample_toLowerCase library_items home_opened"

section \<open>Plan tiers\<close>

lemma gb_le_iff: "(q / (1024 * 1024 * 1024) \<le> (k::real)) = (q \<le> k * GiB)"
  by (simp add: GiB_def field_simps)

text \<open>
  C10. The plan tier is decided by inclusive thresholds at 5 GiB and 100 GiB: at most 5 GiB
  is the free plan, above 5 GiB and at most 100 GiB is the pro plan, above 100 GiB is the
  enterprise plan; exactly 5 GiB and exactly 100 GiB fall into the lower tier.
\<close>

theorem getPlanDisplayName_tiers:
  "getPlanDisplayName q =
     (if q \<le> 5 * GiB then ''Free Plan''
      else if q \<le> 100 * GiB then ''Pro Plan''
      else ''Enterprise Plan'')
   \<and> getPlanDisplayName (5 * GiB) = ''Free Plan''
   \<and> getPlanDisplayName (100 * GiB) = ''Pro Plan''"
  unfolding getPlanDisplayName_def Let_def gb_le_iff by (simp add: GiB_def)

theorem getPlanDisplayName_tiers_witness:
  "getPlanDisplayName 5368709120 = ''Free Plan''
   \<and> getPlanDisplayName 5368709121 = ''Pro Plan''
   \<and> getPlanDisplayName 107374182400 = ''Pro Plan''
   \<and> getPlanDisplayName 107374182401 = ''Enterprise Plan''"
  using getPlanDisplayName_tiers [of 5368709120] getPlanDisplayName_tiers [of 5368709121]
    getPlanDisplayName_tiers [of 107374182400] getPlanDisplayName_tiers [of 107374182401]
  by (simp add: GiB_def)

section \<open>Token expiry\<close>

text \<open>
  C2. The expiry check is a function of the token string and the clock alone (given the
  browser's decoding functions) and fails closed: a token that does not split into three
  segments, whose payload does not decode or parse, or whose payload has no expiry claim
  is expired; an expiry claim below the current time is expired. An expiry claim of 0
  reads as a missing claim and is expired at every clock time; a non-zero expiry claim at
  or above the current time is valid.
\<close>

theorem isTokenExpired_fails_closed:
  "(length (split_on CHR ''.'' token) \<noteq> 3 \<longrightarrow> isTokenExpired pf now token)
   \<and> (split_on CHR ''.'' token = [h, p, g] \<longrightarrow>
        (atob pf p = None \<longrightarrow> isTokenExpired pf now token)
      \<and> (\<forall>d. atob pf p = Some d \<longrightarrow>
            (JSON_parse pf d = None \<longrightarrow> isTokenExpired pf now token)
          \<and> (\<forall>payload. JSON_parse pf d = Some payload \<longrightarrow>
                (get_property payload ''exp'' = None \<longrightarrow> isTokenExpired pf now token)
              \<and> (get_property payload ''exp'' = Some JUndefined \<longrightarrow> isTokenExpired pf now token)
              \<and> (\<forall>e. get_property payload ''exp'' = Some (JNum e) \<longrightarrow>
                    (e < real_of_int (currentTime now) \<longrightarrow> isTokenExpired pf now token)
                  \<and> (e = 0 \<longrightarrow> isTokenExpired pf now token)
                  \<and> (e \<noteq> 0 \<and> real_of_int (currentTime now) \<le> e \<longrightarrow>
                        \<not> isTokenExpired pf now token)))))"
  by (auto simp add: isTokenExpired_def)

theorem isTokenExpired_fails_closed_witness:
  "\<not> isTokenExpired sample_platform sample_now live_token
   \<and> isTokenExpired sample_platform sample_now stale_token"
  using isTokenExpired_fails_closed [of live_token sample_platform sample_now
      "''h''" "''eyJleHAiOjIwMDAwMDAwMDB9''" "''s''"]
    isTokenExpired_fails_closed [of stale_token sample_platform sample_now
      "''eyJ0eXAiOiJKV1QiLCJhbGciOiJIUzI1NiJ9''" "''eyJleHAiOjE2MDAwMDAwMDB9''" "''invalid''"]
  by (simp add: sample_platform_def currentTime_def live_token_def stale_token_def sample_now_def)

text \<open>
  Without the exception for 0, "an expiry claim at or above the current time is valid"
  fails for the token whose payload is \<open>{"exp":0}\<close> when the clock reads the epoch:
  the expiry claim 0 is not below the current time 0, and the token is expired all the
  same.
\<close>

theorem isTokenExpired_zero_exp_counterexample:
  "split_on CHR ''.'' ''x.eyJleHAiOjB9.y'' = [''x'', ''eyJleHAiOjB9'', ''y'']
   \<and> atob sample_platform ''eyJleHAiOjB9'' = Some ''{\"exp\":0}''
   \<and> JSON_parse sample_platform ''{\"exp\":0}'' = Some (JObj [(''exp'', JNum 0)])
   \<and> get_property (JObj [(''exp'', JNum 0)]) ''exp'' = Some (JNum 0)
   \<and> real_of_int (currentTime 0) \<le> 0
   \<and> isTokenExpired sample_platform 0 ''x.eyJleHAiOjB9.y''"
  by (simp add: isTokenExpired_def sample_platform_def currentTime_def)

section \<open>Single-fire logout\<close>

lemma logout_idle: "isLoggingOut s \<Longrightarrow> logout s = s"
  by (simp add: logout_def)

lemma logout_sets_flag: "isLoggingOut (logout s)"
  by (simp add: logout_def Let_def set_isLoggingOut_def removeItem_def subject_next_def
      router_navigate_def)

lemma logout_history:
  "\<not> isLoggingOut s \<Longrightarrow> history (logout s) = history s @ logout_sequence"
  by (simp add: logout_def Let_def set_isLoggingOut_def removeItem_def subject_next_def
      router_navigate_def logout_sequence_def)

lemma logout_store:
  "\<not> isLoggingOut s \<Longrightarrow>
     localStorage (logout s) = (localStorage s)(TOKEN_KEY := None, USER_KEY := None)"
  by (simp add: logout_def Let_def set_isLoggingOut_def removeItem_def subject_next_def
      router_navigate_def)

lemma logout_subject: "\<not> isLoggingOut s \<Longrightarrow> currentUserSubject (logout s) = None"
  by (simp add: logout_def Let_def set_isLoggingOut_def removeItem_def subject_next_def
      router_navigate_def)

lemma logout_pending: "\<not> isLoggingOut s \<Longrightarrow> pendingThen (logout s) = Suc (pendingThen s)"
  by (simp add: logout_def Let_def set_isLoggingOut_def removeItem_def subject_next_def
      router_navigate_def)

lemma logout_cycles_append: "logout_cycles (h @ h') = logout_cycles h + logout_cycles h'"
  by (simp add: logout_cycles_def)

lemma logout_cycles_sequence: "logout_cycles logout_sequence = 1"
  by (simp add: logout_cycles_def logout_sequence_def)

lemma auth_run_Cons: "auth_run pf (e # es) s = auth_run pf es (auth_step pf e s)"
  by (simp add: auth_run_def)

lemma auth_run_Nil: "auth_run pf [] s = s"
  by (simp add: auth_run_def)

lemma logout_calls_idle:
  "isLoggingOut s \<Longrightarrow> auth_run pf (replicate n CallLogout) s = s"
  by (induction n) (simp_all add: auth_run_Nil auth_run_Cons logout_idle)

lemma signed_in_idle: "\<not> isLoggingOut signed_in"
  by (simp add: signed_in_def handleAuthSuccess_def subject_next_def setItem_def
      new_AuthService_def getUserFromStorage_def)

text \<open>
  C1. \<open>N\<close> calls of \<open>logout()\<close> that arrive before the navigation of the first has
  settled, the first of them finding the flag clear, leave the service where the first
  call alone leaves it: the history grows by one clear-and-navigate sequence (flag set,
  token entry removed, user entry removed, \<open>null\<close> published, navigation to the sign-in
  view), so session state is cleared once and one navigation is made. The flag is written
  first in that sequence and is set when \<open>logout\<close> returns, with the callback that
  clears it still pending; a call that finds the flag set (in any state \<open>t\<close>) changes
  nothing.
\<close>

theorem logout_runs_once:
  assumes idle: "\<not> isLoggingOut s" and calls: "0 < N"
  shows "auth_run pf (replicate N CallLogout) s = logout s
    \<and> history (logout s) = history s @ logout_sequence
    \<and> logout_cycles (history (auth_run pf (replicate N CallLogout) s))
        = Suc (logout_cycles (history s))
    \<and> localStorage (logout s) TOKEN_KEY = None
    \<and> localStorage (logout s) USER_KEY = None
    \<and> currentUserSubject (logout s) = None
    \<and> isLoggingOut (logout s)
    \<and> pendingThen (logout s) = Suc (pendingThen s)
    \<and> (isLoggingOut t \<longrightarrow> logout t = t)"
proof -
  obtain n where N: "N = Suc n"
    using calls by (cases N) auto
  have run: "auth_run pf (replicate N CallLogout) s = logout s"
    unfolding N by (simp add: auth_run_Cons logout_calls_idle logout_sets_flag)
  have cyc: "logout_cycles (history (logout s)) = Suc (logout_cycles (history s))"
    by (simp add: logout_history [OF idle] logout_cycles_append logout_cycles_sequence)
  show ?thesis
    using run cyc logout_history [OF idle] logout_store [OF idle] logout_subject [OF idle]
      logout_pending [OF idle] logout_sets_flag [of s] logout_idle [of t]
    by simp
qed

theorem logout_runs_once_witness:
  "\<not> isLoggingOut signed_in \<and> (0::nat) < 3
   \<and> history (auth_run sample_platform [CallLogout, CallLogout, CallLogout] signed_in)
       = history signed_in @ logout_sequence
   \<and> localStorage (auth_run sample_platform [CallLogout, CallLogout, CallLogout] signed_in)
        TOKEN_KEY = None
   \<and> logout (logout signed_in) = logout signed_in"
proof -
  have rep: "replicate 3 CallLogout = [CallLogout, CallLogout, CallLogout]"
    by (simp add: numeral_3_eq_3)
  show ?thesis
    using logout_runs_once [OF signed_in_idle, of 3 sample_platform "logout signed_in"]
      signed_in_idle
    by (simp add: rep)
qed

section \<open>The unauthorized-response handler\<close>

lemma isAuthenticated_True:
  "fst (isAuthenticated pf now s) \<Longrightarrow> snd (isAuthenticated pf now s) = s \<and> \<not> isLoggingOut s"
  by (auto simp add: isAuthenticated_def split: option.splits if_splits)

lemma isAuthenticated_state:
  "snd (isAuthenticated pf now s) = s \<or>
   (\<not> isLoggingOut s \<and> \<not> fst (isAuthenticated pf now s) \<and> snd (isAuthenticated pf now s) = logout s)"
  by (auto simp add: isAuthenticated_def split: option.splits if_splits)

lemma isAuthenticated_no_token:
  "getToken s = None \<Longrightarrow> isAuthenticated pf now s = (False, s)"
  by (simp add: isAuthenticated_def)

lemma logout_cycles_snoc_navigate: "logout_cycles (h @ [Navigate r]) = logout_cycles h"
  by (simp add: logout_cycles_def)

lemma logout_cycles_snoc_flag: "logout_cycles (h @ [WriteFlag b]) = logout_cycles h"
  by (simp add: logout_cycles_def)

lemma logout_no_token: "\<not> isLoggingOut s \<Longrightarrow> getToken (logout s) = None"
  by (simp add: getToken_def logout_store)

lemma logout_cycles_logout:
  "\<not> isLoggingOut s \<Longrightarrow> logout_cycles (history (logout s)) = Suc (logout_cycles (history s))"
  by (simp add: logout_history logout_cycles_append logout_cycles_sequence)

lemma router_navigate_simps:
  "history (router_navigate r s) = history s @ [Navigate r]"
  "getToken (router_navigate r s) = getToken s"
  by (simp_all add: router_navigate_def getToken_def)

lemma intercept_401_True:
  "status err = 401 \<Longrightarrow> fst (isAuthenticated pf now s) \<Longrightarrow>
     snd (intercept_catchError pf now err s) = logout s"
  using isAuthenticated_True [of pf now s]
  by (cases "isAuthenticated pf now s") (simp add: intercept_catchError_def)

lemma intercept_401_False:
  "status err = 401 \<Longrightarrow> \<not> fst (isAuthenticated pf now s) \<Longrightarrow>
     snd (intercept_catchError pf now err s)
       = router_navigate ''/login'' (snd (isAuthenticated pf now s))"
  by (cases "isAuthenticated pf now s") (simp add: intercept_catchError_def)

lemma intercept_other: "status err \<noteq> 401 \<Longrightarrow> snd (intercept_catchError pf now err s) = s"
  by (simp add: intercept_catchError_def)

lemma intercept_step:
  "(logout_cycles (history (snd (intercept_catchError pf now err s))) = logout_cycles (history s)
      \<and> getToken (snd (intercept_catchError pf now err s)) = getToken s)
   \<or> (logout_cycles (history (snd (intercept_catchError pf now err s))) = Suc (logout_cycles (history s))
      \<and> getToken s \<noteq> None
      \<and> getToken (snd (intercept_catchError pf now err s)) = None)"
proof (cases "status err = 401")
  case False
  then show ?thesis by (simp add: intercept_other)
next
  case unauth: True
  show ?thesis
  proof (cases "fst (isAuthenticated pf now s)")
    case True
    then have idle: "\<not> isLoggingOut s" and tok: "getToken s \<noteq> None"
      by (auto simp add: isAuthenticated_def split: option.splits if_splits)
    show ?thesis
      using idle tok by (simp add: intercept_401_True [OF unauth True] logout_cycles_logout logout_no_token)
  next
    case False
    from isAuthenticated_state [of pf now s] show ?thesis
    proof
      assume "snd (isAuthenticated pf now s) = s"
      then show ?thesis
        by (simp add: intercept_401_False [OF unauth False] router_navigate_simps
            logout_cycles_snoc_navigate)
    next
      assume a: "\<not> isLoggingOut s \<and> \<not> fst (isAuthenticated pf now s)
          \<and> snd (isAuthenticated pf now s) = logout s"
      have tok: "getToken s \<noteq> None"
      proof
        assume "getToken s = None"
        then have "logout s = s"
          using a by (simp add: isAuthenticated_no_token)
        then show False
          using a logout_sets_flag [of s] by simp
      qed
      show ?thesis
        using a tok
        by (simp add: intercept_401_False [OF unauth False] router_navigate_simps
            logout_cycles_snoc_navigate logout_cycles_logout logout_no_token)
    qed
  qed
qed

lemma settled_step:
  "logout_cycles (history (navigation_settled s)) = logout_cycles (history s)
   \<and> getToken (navigation_settled s) = getToken s"
  by (simp add: navigation_settled_def set_isLoggingOut_def logout_cycles_snoc_flag getToken_def)

lemma handler_step:
  assumes "e \<noteq> CallLogout"
  shows "(logout_cycles (history (auth_step pf e s)) = logout_cycles (history s)
            \<and> getToken (auth_step pf e s) = getToken s)
       \<or> (logout_cycles (history (auth_step pf e s)) = Suc (logout_cycles (history s))
            \<and> getToken s \<noteq> None \<and> getToken (auth_step pf e s) = None)"
proof (cases e)
  case CallLogout
  with assms show ?thesis by simp
next
  case NavigationSettled
  then show ?thesis using settled_step [of s] by simp
next
  case (ErrorResponse now err)
  then show ?thesis using intercept_step [of pf now err s] by simp
qed

lemma handler_run:
  "CallLogout \<notin> set es \<Longrightarrow>
     (getToken s = None \<longrightarrow> logout_cycles (history (auth_run pf es s)) = logout_cycles (history s))
   \<and> logout_cycles (history (auth_run pf es s)) \<le> Suc (logout_cycles (history s))"
proof (induction es arbitrary: s)
  case Nil
  then show ?case by (simp add: auth_run_Nil)
next
  case (Cons e es)
  then have e: "e \<noteq> CallLogout" and es: "CallLogout \<notin> set es"
    by auto
  from Cons.IH [OF es, of "auth_step pf e s"] handler_step [OF e, of pf s]
  show ?case
    by (auto simp add: auth_run_Cons)
qed

text \<open>
  C3. The interceptor's handler returns the error it caught to the caller in every case.
  On a status other than 401 it changes nothing. On 401 it calls \<open>logout()\<close> when
  \<open>isAuthenticated()\<close> succeeds, which runs one clear-and-navigate sequence; when the
  check fails it only navigates to the sign-in view after the check. Either way the
  response adds at most one logout cycle to the history, and so does every sequence of
  intercepted responses and navigation settlements taken together.
\<close>

theorem intercept_one_cycle:
  "fst (intercept_catchError pf now err s) = Inl err
   \<and> (status err \<noteq> 401 \<longrightarrow> snd (intercept_catchError pf now err s) = s)
   \<and> (status err = 401 \<and> fst (isAuthenticated pf now s) \<longrightarrow>
        snd (intercept_catchError pf now err s) = logout s
      \<and> history (snd (intercept_catchError pf now err s)) = history s @ logout_sequence)
   \<and> (status err = 401 \<and> \<not> fst (isAuthenticated pf now s) \<longrightarrow>
        history (snd (intercept_catchError pf now err s))
          = history (snd (isAuthenticated pf now s)) @ [Navigate ''/login''])
   \<and> logout_cycles (history (snd (intercept_catchError pf now err s)))
        \<le> Suc (logout_cycles (history s))
   \<and> (CallLogout \<notin> set es \<longrightarrow>
        logout_cycles (history (auth_run pf es s)) \<le> Suc (logout_cycles (history s)))"
proof -
  have h1: "fst (intercept_catchError pf now err s) = Inl err"
    by (simp add: intercept_catchError_def Let_def)
  have h2: "status err \<noteq> 401 \<longrightarrow> snd (intercept_catchError pf now err s) = s"
    by (simp add: intercept_other)
  have h3: "status err = 401 \<and> fst (isAuthenticated pf now s) \<longrightarrow>
      snd (intercept_catchError pf now err s) = logout s
      \<and> history (snd (intercept_catchError pf now err s)) = history s @ logout_sequence"
    using isAuthenticated_True [of pf now s]
    by (auto simp add: intercept_401_True logout_history)
  have h4: "status err = 401 \<and> \<not> fst (isAuthenticated pf now s) \<longrightarrow>
      history (snd (intercept_catchError pf now err s))
        = history (snd (isAuthenticated pf now s)) @ [Navigate ''/login'']"
    by (auto simp add: intercept_401_False router_navigate_simps)
  have h5: "logout_cycles (history (snd (intercept_catchError pf now err s)))
      \<le> Suc (logout_cycles (history s))"
    using intercept_step [of pf now err s] by auto
  have h6: "CallLogout \<notin> set es \<longrightarrow>
      logout_cycles (history (auth_run pf es s)) \<le> Suc (logout_cycles (history s))"
    using handler_run [of es s pf] by blast
  show ?thesis
    using h1 h2 h3 h4 h5 h6 by blast
qed

theorem intercept_one_cycle_witness:
  "fst (intercept_catchError sample_platform sample_now unauthorized signed_in) = Inl unauthorized
   \<and> history (snd (intercept_catchError sample_platform sample_now unauthorized signed_in))
        = history signed_in @ logout_sequence
   \<and> logout_cycles (history (auth_run sample_platform
          [ErrorResponse sample_now unauthorized, ErrorResponse sample_now unauthorized,
           NavigationSettled, ErrorResponse sample_now unauthorized] signed_in))
        \<le> Suc (logout_cycles (history signed_in))"
proof -
  have auth: "fst (isAuthenticated sample_platform sample_now signed_in)"
    by (simp add: isAuthenticated_def signed_in_def handleAuthSuccess_def subject_next_def
        setItem_def new_AuthService_def getUserFromStorage_def getToken_def TOKEN_KEY_def
        USER_KEY_def live_token_def isTokenExpired_def sample_platform_def currentTime_def
        sample_now_def)
  have st: "status unauthorized = 401"
    by (simp add: unauthorized_def)
  have ev: "CallLogout \<notin> set [ErrorResponse sample_now unauthorized,
      ErrorResponse sample_now unauthorized, NavigationSettled,
      ErrorResponse sample_now unauthorized]"
    by simp
  show ?thesis
    using intercept_one_cycle [of sample_platform sample_now unauthorized signed_in
        "[ErrorResponse sample_now unauthorized, ErrorResponse sample_now unauthorized,
           NavigationSettled, ErrorResponse sample_now unauthorized]"] auth st ev
    by blast
qed

section \<open>Search\<close>

lemma str_includes_iff: "str_includes s q \<longleftrightarrow> sublist q s"
  by (induction s) (simp_all add: sublist_Cons_right)

text \<open>
  C4. \<open>applySearch\<close> writes \<open>filteredItems\<close> and nothing else; no request is sent and
  none is pending that was not before. When the trimmed query is empty the displayed
  items are the cached items unchanged. Otherwise they are exactly the cached items, in
  their order, whose title lowered by \<open>toLowerCase\<close> contains, as a run of code units,
  the query lowered by \<open>toLowerCase\<close> and then trimmed.
\<close>

theorem applySearch_projection:
  "(trim (searchQuery s) = [] \<longrightarrow> filteredItems (applySearch lc s) = mediaItems s)
   \<and> (trim (searchQuery s) \<noteq> [] \<longrightarrow>
        filteredItems (applySearch lc s) =
          filter (\<lambda>r. sublist (trim (lc (searchQuery s))) (lc (title (heap s ! r))))
            (mediaItems s))
   \<and> applySearch lc s = s\<lparr>filteredItems := filteredItems (applySearch lc s)\<rparr>
   \<and> dispatched (applySearch lc s) = dispatched s
   \<and> subscriptions (applySearch lc s) = subscriptions s"
proof -
  have empty: "trim (searchQuery s) = [] \<longrightarrow> filteredItems (applySearch lc s) = mediaItems s"
    by (simp add: applySearch_def)
  have filtered: "trim (searchQuery s) \<noteq> [] \<longrightarrow>
      filteredItems (applySearch lc s) =
        filter (\<lambda>r. sublist (trim (lc (searchQuery s))) (lc (title (heap s ! r)))) (mediaItems s)"
    by (simp add: applySearch_def Let_def str_includes_iff)
  have only: "applySearch lc s = s\<lparr>filteredItems := filteredItems (applySearch lc s)\<rparr>"
    by (simp add: applySearch_def Let_def)
  have sent: "dispatched (applySearch lc s) = dispatched s"
    by (simp add: applySearch_def Let_def)
  have pending: "subscriptions (applySearch lc s) = subscriptions s"
    by (simp add: applySearch_def Let_def)
  show ?thesis
    by (rule conjI [OF empty conjI [OF filtered conjI [OF only conjI [OF sent pending]]]])
qed

lemma searching_fields:
  "heap searching = library_items" "mediaItems searching = [0, 1, 2]"
  "searchQuery searching = utf16 '' VAC ''"
  by (simp_all add: searching_def loadMedia_next_def Let_def applySearch_def home_opened_def
      ngOnInit_def loadStorageSummary_def loadMedia_def dispatch_def new_HomeComponent_def
      library_items_def upt_rec trim_def)

lemma trim_sample: "trim (utf16 '' VAC '') = utf16 ''VAC''"
  by code_simp

lemma query_sample: "trim (sample_toLowerCase (utf16 '' VAC '')) = utf16 ''vac''"
  by code_simp

lemma titles_sample:
  "map (\<lambda>r. sample_toLowerCase (title (library_items ! r))) [0, 1, 2]
     = [utf16 ''vacation.jpg'', utf16 ''vacuum.mp3'', utf16 ''beach.png'']"
  by code_simp

lemma sublist_sample:
  "sublist (utf16 ''vac'') (utf16 ''vacation.jpg'')"
  "sublist (utf16 ''vac'') (utf16 ''vacuum.mp3'')"
  "\<not> sublist (utf16 ''vac'') (utf16 ''beach.png'')"
  by (simp_all add: sublist_Cons_right utf16_def)

theorem applySearch_projection_witness:
  "filteredItems (applySearch sample_toLowerCase searching) = [0, 1]
   \<and> dispatched (applySearch sample_toLowerCase searching) = dispatched searching"
proof -
  have "trim (searchQuery searching) = utf16 ''VAC''"
    by (simp only: searching_fields trim_sample)
  then have nonempty: "trim (searchQuery searching) \<noteq> []"
    by (simp add: utf16_def)
  have "filteredItems (applySearch sample_toLowerCase searching) =
      filter (\<lambda>r. sublist (trim (sample_toLowerCase (searchQuery searching)))
          (sample_toLowerCase (title (heap searching ! r)))) (mediaItems searching)"
    using applySearch_projection [of searching sample_toLowerCase] nonempty by simp
  then have "filteredItems (applySearch sample_toLowerCase searching) = [0, 1]"
    using titles_sample sublist_sample by (simp add: searching_fields query_sample)
  then show ?thesis
    using applySearch_projection [of searching sample_toLowerCase] by simp
qed

text \<open>
  Lowering is not done letter by letter. The title of three Greek capitals alpha, sigma,
  alpha contains the query alpha, sigma as it stands. \<open>toLowerCase\<close> turns the sigma of
  the query, which ends its word, into a final sigma and the sigma of the title into a
  medial one, so the lowered title does not contain the lowered query and the item is
  not displayed.
\<close>

theorem applySearch_final_sigma_counterexample:
  "mediaItems greek_search = [0]
   \<and> title (heap greek_search ! 0) = [0x0391, 0x03A3, 0x0391]
   \<and> trim (searchQuery greek_search) = [0x0391, 0x03A3]
   \<and> sublist (trim (searchQuery greek_search)) (title (heap greek_search ! 0))
   \<and> filteredItems (applySearch sample_toLowerCase greek_search) = []"
  by (simp add: greek_search_def greek_item_def loadMedia_next_def Let_def applySearch_def
      home_opened_def ngOnInit_def loadStorageSummary_def loadMedia_def dispatch_def
      new_HomeComponent_def trim_def isWhiteSpace_def sample_toLowerCase_def
      sublist_Cons_right)

section \<open>Quota percentage\<close>

lemma sign_correct_sample: "sign_correct sample_arith"
  by (simp add: sign_correct_def sample_arith_def)

lemma percentage_of_nonnegative:
  assumes ar: "sign_correct ar" and u: "0 \<le> u" and q: "0 < q"
  shows "\<exists>p. 0 \<le> p \<and> p \<le> 100
    \<and> js_min (Fin 100) (fmul ar (fdiv ar (Fin u) (Fin q)) (Fin 100)) = Fin p"
proof -
  have quotient: "fdiv ar (Fin u) (Fin q) = PosInf \<or> (\<exists>z. 0 \<le> z \<and> fdiv ar (Fin u) (Fin q) = Fin z)"
    using ar u q by (simp add: sign_correct_def)
  have product: "fmul ar (fdiv ar (Fin u) (Fin q)) (Fin 100) = PosInf
      \<or> (\<exists>w. 0 \<le> w \<and> fmul ar (fdiv ar (Fin u) (Fin q)) (Fin 100) = Fin w)"
    using quotient ar by (auto simp add: sign_correct_def)
  then show ?thesis
  proof
    assume "fmul ar (fdiv ar (Fin u) (Fin q)) (Fin 100) = PosInf"
    then show ?thesis by simp
  next
    assume "\<exists>w. 0 \<le> w \<and> fmul ar (fdiv ar (Fin u) (Fin q)) (Fin 100) = Fin w"
    then obtain w where "0 \<le> w" "fmul ar (fdiv ar (Fin u) (Fin q)) (Fin 100) = Fin w"
      by (elim exE conjE)
    then show ?thesis by simp
  qed
qed

text \<open>
  C9. For a storage summary whose \<open>usedBytes\<close> and \<open>quotaBytes\<close> are finite and not
  negative, the displayed percentage is a finite number from 0 to 100; it is 0 when the
  quota is 0, whatever dividing by zero would give; and otherwise it is
  \<open>usedBytes / quotaBytes * 100\<close>, as double arithmetic computes it, clamped to the
  interval from 0 to 100.
\<close>

theorem getStoragePercentage_clamped:
  assumes ar: "sign_correct ar" and sm: "storageSummary s = Some sm"
    and used: "usedBytes sm = Fin u" "0 \<le> u" and quota: "quotaBytes sm = Fin q" "0 \<le> q"
  shows "(\<exists>p. getStoragePercentage ar s = Fin p \<and> 0 \<le> p \<and> p \<le> 100)
    \<and> (q = 0 \<longrightarrow> getStoragePercentage ar s = Fin 0)
    \<and> (q \<noteq> 0 \<longrightarrow>
          getStoragePercentage ar s =
            js_max (Fin 0) (js_min (Fin 100) (fmul ar (fdiv ar (Fin u) (Fin q)) (Fin 100))))"
proof (cases "q = 0")
  case True
  then show ?thesis
    using sm quota by (simp add: getStoragePercentage_def)
next
  case False
  then have pos: "0 < q"
    using quota by simp
  obtain p where p: "0 \<le> p" "p \<le> 100"
      "js_min (Fin 100) (fmul ar (fdiv ar (Fin u) (Fin q)) (Fin 100)) = Fin p"
    using percentage_of_nonnegative [OF ar used(2) pos] by (elim exE conjE)
  have val: "getStoragePercentage ar s = Fin p"
    using sm used(1) quota(1) False p(3) by (simp add: getStoragePercentage_def)
  show ?thesis
    using val p False by simp
qed

theorem getStoragePercentage_clamped_witness:
  "getStoragePercentage sample_arith
       (loadStorageSummary_next \<lparr>usedBytes = Fin 3, quotaBytes = Fin 4\<rparr> home_opened) = Fin 75
   \<and> getStoragePercentage sample_arith
       (loadStorageSummary_next \<lparr>usedBytes = Fin 9, quotaBytes = Fin 4\<rparr> home_opened) = Fin 100
   \<and> getStoragePercentage sample_arith
       (loadStorageSummary_next \<lparr>usedBytes = Fin 9, quotaBytes = Fin 0\<rparr> home_opened) = Fin 0
   \<and> js_min (Fin 100) (fmul sample_arith (fdiv sample_arith (Fin 9) (Fin 0)) (Fin 100)) = Fin 100"
proof -
  have a: "getStoragePercentage sample_arith
      (loadStorageSummary_next \<lparr>usedBytes = Fin 3, quotaBytes = Fin 4\<rparr> home_opened) = Fin 75"
    using getStoragePercentage_clamped [OF sign_correct_sample,
        of "loadStorageSummary_next \<lparr>usedBytes = Fin 3, quotaBytes = Fin 4\<rparr> home_opened"
          "\<lparr>usedBytes = Fin 3, quotaBytes = Fin 4\<rparr>" 3 4]
    by (simp add: loadStorageSummary_next_def sample_arith_def)
  have b: "getStoragePercentage sample_arith
      (loadStorageSummary_next \<lparr>usedBytes = Fin 9, quotaBytes = Fin 4\<rparr> home_opened) = Fin 100"
    using getStoragePercentage_clamped [OF sign_correct_sample,
        of "loadStorageSummary_next \<lparr>usedBytes = Fin 9, quotaBytes = Fin 4\<rparr> home_opened"
          "\<lparr>usedBytes = Fin 9, quotaBytes = Fin 4\<rparr>" 9 4]
    by (simp add: loadStorageSummary_next_def sample_arith_def)
  have c: "getStoragePercentage sample_arith
      (loadStorageSummary_next \<lparr>usedBytes = Fin 9, quotaBytes = Fin 0\<rparr> home_opened) = Fin 0"
    using getStoragePercentage_clamped [OF sign_correct_sample,
        of "loadStorageSummary_next \<lparr>usedBytes = Fin 9, quotaBytes = Fin 0\<rparr> home_opened"
          "\<lparr>usedBytes = Fin 9, quotaBytes = Fin 0\<rparr>" 9 0]
    by (simp add: loadStorageSummary_next_def)
  have d: "js_min (Fin 100) (fmul sample_arith (fdiv sample_arith (Fin 9) (Fin 0)) (Fin 100)) = Fin 100"
    by (simp add: sample_arith_def)
  show ?thesis
    by (rule conjI [OF a conjI [OF b conjI [OF c d]]])
qed

text \<open>
  The percentage is only clamped from above. With one byte used of a quota of \<open>- 1\<close>
  the quotient is \<open>- 1\<close>, the product \<open>- 100\<close>, both exact, and the result is
  \<open>- 100\<close>, outside the interval, although \<open>usedBytes\<close> is not negative.
\<close>

theorem getStoragePercentage_negative_quota_counterexample:
  "storageSummary (loadStorageSummary_next negative_quota home_opened) = Some negative_quota
   \<and> usedBytes negative_quota = Fin 1
   \<and> quotaBytes negative_quota = Fin (- 1)
   \<and> getStoragePercentage sample_arith (loadStorageSummary_next negative_quota home_opened)
       = Fin (- 100)"
  by (simp add: getStoragePercentage_def loadStorageSummary_next_def negative_quota_def
      sample_arith_def)

section \<open>Session pairing at startup\<close>

text \<open>
  C7. The token and the user are meant to be stored together or absent together. At
  startup over a store whose user entry does not parse, \<open>getUserFromStorage\<close> removes
  the user entry alone: the service starts with the token stored and no user, and
  \<open>isAuthenticated()\<close> accepts the session.
\<close>

theorem malformed_user_leaves_token:
  "localStorage (new_AuthService sample_platform corrupted_store) TOKEN_KEY = Some live_token
   \<and> localStorage (new_AuthService sample_platform corrupted_store) USER_KEY = None
   \<and> getUser (new_AuthService sample_platform corrupted_store) = None
   \<and> isAuthenticated sample_platform sample_now (new_AuthService sample_platform corrupted_store)
       = (True, new_AuthService sample_platform corrupted_store)"
  by (simp add: new_AuthService_def getUserFromStorage_def corrupted_store_def USER_KEY_def
      TOKEN_KEY_def sample_platform_def removeItem_def getUser_def isAuthenticated_def
      getToken_def live_token_def isTokenExpired_def currentTime_def sample_now_def)

section \<open>Operation guard\<close>

lemma pending_ids_append: "pending_ids (xs @ ys) = pending_ids xs @ pending_ids ys"
  by (induction xs rule: pending_ids.induct) (simp_all split: option.splits)

lemma in_flight_count: "in_flight i s = count_list (pending_ids (subscriptions s)) i"
proof -
  have "length (filter (\<lambda>(req, k). mutated_id req = Some i) xs) = count_list (pending_ids xs) i" for xs
    by (induction xs rule: pending_ids.induct) (simp_all split: option.splits)
  then show ?thesis
    by (simp add: in_flight_def)
qed

lemma distinct_count: "distinct xs \<Longrightarrow> count_list xs i = (if i \<in> set xs then 1 else 0)"
  by (induction xs) auto

lemma guard_inv_in_flight:
  "guard_inv s \<Longrightarrow> in_flight i s = (if i \<in> operatingItems s then 1 else 0)"
  by (simp add: in_flight_count guard_inv_def distinct_count)

lemma closure_ok_append: "closure_ok h rk \<Longrightarrow> closure_ok (h @ items) rk"
  by (induction h rk rule: closure_ok.induct) (simp_all add: nth_append)

lemma item_id_update:
  "item_id ((h[r := (h ! r)\<lparr>isFavorite := b\<rparr>]) ! r') = item_id (h ! r')"
  "item_id ((h[r := (h ! r)\<lparr>isDeleted := b\<rparr>]) ! r') = item_id (h ! r')"
proof -
  show "item_id ((h[r := (h ! r)\<lparr>isFavorite := b\<rparr>]) ! r') = item_id (h ! r')"
    by (cases "r < length h"; cases "r' = r") (simp_all add: list_update_beyond)
  show "item_id ((h[r := (h ! r)\<lparr>isDeleted := b\<rparr>]) ! r') = item_id (h ! r')"
    by (cases "r < length h"; cases "r' = r") (simp_all add: list_update_beyond)
qed

lemma closure_ok_update:
  "closure_ok (h[r := (h ! r)\<lparr>isFavorite := b\<rparr>]) rk = closure_ok h rk"
  "closure_ok (h[r := (h ! r)\<lparr>isDeleted := b\<rparr>]) rk = closure_ok h rk"
proof -
  show "closure_ok (h[r := (h ! r)\<lparr>isFavorite := b\<rparr>]) rk = closure_ok h rk"
    by (cases rk; cases "snd rk") (simp_all add: item_id_update)
  show "closure_ok (h[r := (h ! r)\<lparr>isDeleted := b\<rparr>]) rk = closure_ok h rk"
    by (cases rk; cases "snd rk") (simp_all add: item_id_update)
qed

lemma guard_inv_step:
  assumes "guard_inv s"
    and "list_all (closure_ok (heap s')) (subscriptions s) "
    and "subscriptions s' = subscriptions s @ extra"
    and "list_all (closure_ok (heap s')) extra"
    and "pending_ids extra = []"
    and "operatingItems s' = operatingItems s"
  shows "guard_inv s'"
  using assms by (simp add: guard_inv_def pending_ids_append)

lemma guard_inv_loadMedia [simp]: "guard_inv (loadMedia s) = guard_inv s"
  by (simp add: guard_inv_def loadMedia_def dispatch_def pending_ids_append)

lemma guard_inv_loadStorageSummary [simp]: "guard_inv (loadStorageSummary s) = guard_inv s"
  by (simp add: guard_inv_def loadStorageSummary_def dispatch_def pending_ids_append)

lemma guard_inv_applySearch [simp]: "guard_inv (applySearch lc s) = guard_inv s"
  by (simp add: guard_inv_def applySearch_def Let_def)

lemma guard_inv_irrelevant [simp]:
  "guard_inv (s\<lparr>activeTab := tab\<rparr>) = guard_inv s"
  "guard_inv (s\<lparr>searchQuery := q\<rparr>) = guard_inv s"
  "guard_inv (s\<lparr>isLoading := b\<rparr>) = guard_inv s"
  "guard_inv (s\<lparr>storageSummary := sm\<rparr>) = guard_inv s"
  "guard_inv (s\<lparr>storageLoading := b\<rparr>) = guard_inv s"
  "guard_inv (s\<lparr>auth := a\<rparr>) = guard_inv s"
  "guard_inv (s\<lparr>uploadError := e\<rparr>) = guard_inv s"
  "guard_inv (s\<lparr>uploadingFiles := u, uploadProgress := p\<rparr>) = guard_inv s"
  by (simp_all add: guard_inv_def)

lemma guard_inv_init: "guard_inv (ngOnInit (new_HomeComponent a))"
proof -
  have "guard_inv (new_HomeComponent a)"
    by (simp add: guard_inv_def new_HomeComponent_def)
  then show ?thesis
    by (simp add: ngOnInit_def)
qed

lemma guard_inv_setActiveTab: "guard_inv s \<Longrightarrow> guard_inv (setActiveTab tab s)"
  by (simp add: setActiveTab_def)

lemma guard_inv_search: "guard_inv s \<Longrightarrow> guard_inv (onSearch lc (s\<lparr>searchQuery := q\<rparr>))"
  by (simp add: onSearch_def)

lemma guard_inv_clearSearch: "guard_inv s \<Longrightarrow> guard_inv (clearSearch lc s)"
  by (simp add: clearSearch_def)

lemma guard_inv_uploadFile: "guard_inv s \<Longrightarrow> guard_inv (uploadFile name stamp s)"
  by (simp add: guard_inv_def uploadFile_def Let_def dispatch_def pending_ids_append)

lemma guard_inv_loadMedia_next: "guard_inv s \<Longrightarrow> guard_inv (loadMedia_next lc items s)"
proof -
  assume inv: "guard_inv s"
  have "guard_inv (s\<lparr>heap := heap s @ items,
      mediaItems := [length (heap s) ..< length (heap s) + length items]\<rparr>)"
    using inv by (simp add: guard_inv_def list_all_iff closure_ok_append)
  then show ?thesis
    by (simp add: loadMedia_next_def Let_def)
qed

lemma guard_inv_loadMedia_error: "guard_inv s \<Longrightarrow> guard_inv (loadMedia_error e s)"
  by (simp add: loadMedia_error_def Let_def)

lemma guard_inv_uploadFile_next: "guard_inv s \<Longrightarrow> guard_inv (uploadFile_next f st s)"
  by (cases st) (simp_all add: uploadFile_next_def Let_def)

lemma guard_inv_uploadFile_error: "guard_inv s \<Longrightarrow> guard_inv (uploadFile_error f e s)"
  by (simp add: uploadFile_error_def Let_def)

lemma guard_inv_storage_next: "guard_inv s \<Longrightarrow> guard_inv (loadStorageSummary_next sm s)"
  by (simp add: loadStorageSummary_next_def guard_inv_def)

lemma guard_inv_storage_error: "guard_inv s \<Longrightarrow> guard_inv (loadStorageSummary_error s)"
  by (simp add: loadStorageSummary_error_def)

lemma guard_inv_toggleFavorite:
  "r < length (heap s) \<Longrightarrow> guard_inv s \<Longrightarrow> guard_inv (toggleFavorite r s)"
  by (auto simp add: guard_inv_def toggleFavorite_def Let_def dispatch_def pending_ids_append)

lemma guard_inv_toggleTrash:
  "r < length (heap s) \<Longrightarrow> guard_inv s \<Longrightarrow> guard_inv (toggleTrash r s)"
  by (auto simp add: guard_inv_def toggleTrash_def Let_def dispatch_def pending_ids_append)

lemma guard_inv_deleteMedia:
  "r < length (heap s) \<Longrightarrow> guard_inv s \<Longrightarrow> guard_inv (deleteMedia r c s)"
  by (auto simp add: guard_inv_def deleteMedia_def Let_def dispatch_def pending_ids_append)

lemma guard_open_closed:
  "guard_open i s \<Longrightarrow> guard_inv (s\<lparr>operatingItems := operatingItems s - {i}\<rparr>)"
  by (simp add: guard_open_def guard_inv_def)

lemma closure_ok_update_fun:
  "closure_ok (h[r := (h ! r)\<lparr>isFavorite := b\<rparr>]) = closure_ok h"
  "closure_ok (h[r := (h ! r)\<lparr>isDeleted := b\<rparr>]) = closure_ok h"
  by (rule ext, simp add: closure_ok_update)+

lemma guard_open_update:
  "guard_open i (s\<lparr>heap := (heap s)[r := (heap s ! r)\<lparr>isFavorite := b\<rparr>]\<rparr>) = guard_open i s"
  "guard_open i (s\<lparr>heap := (heap s)[r := (heap s ! r)\<lparr>isDeleted := b\<rparr>]\<rparr>) = guard_open i s"
  by (simp_all add: guard_open_def closure_ok_update_fun)

lemma guard_open_irrelevant:
  "guard_open i (s\<lparr>storageSummary := sm\<rparr>) = guard_open i s"
  "guard_inv (s\<lparr>alerts := al\<rparr>) = guard_inv s"
  by (simp_all add: guard_open_def guard_inv_def)

lemma guard_inv_toggleFavorite_next:
  assumes "guard_open (item_id (heap s ! r)) s"
  shows "guard_inv (toggleFavorite_next r b s)"
proof -
  let ?s1 = "s\<lparr>heap := (heap s)[r := (heap s ! r)\<lparr>isFavorite := b\<rparr>]\<rparr>"
  have "guard_open (item_id (heap s ! r)) ?s1"
    using assms by (simp add: guard_open_update)
  then have "guard_inv (?s1\<lparr>operatingItems := operatingItems ?s1 - {item_id (heap s ! r)}\<rparr>)"
    by (rule guard_open_closed)
  then show ?thesis
    by (cases b) (simp_all add: toggleFavorite_next_def Let_def item_id_update)
qed

lemma guard_inv_toggleTrash_next:
  assumes "guard_open (item_id (heap s ! r)) s"
  shows "guard_inv (toggleTrash_next r b st s)"
proof -
  let ?s1 = "s\<lparr>heap := (heap s)[r := (heap s ! r)\<lparr>isDeleted := b\<rparr>]\<rparr>"
  have "guard_open (item_id (heap s ! r)) ?s1"
    using assms by (simp add: guard_open_update)
  then have "guard_inv (?s1\<lparr>operatingItems := operatingItems ?s1 - {item_id (heap s ! r)}\<rparr>)"
    by (rule guard_open_closed)
  then show ?thesis
    by (cases st; cases b) (simp_all add: toggleTrash_next_def Let_def item_id_update)
qed

lemma guard_inv_deleteMedia_next:
  assumes "guard_open (item_id (heap s ! r)) s"
  shows "guard_inv (deleteMedia_next r st s)"
  using guard_open_closed [OF assms]
  by (cases st) (simp_all add: deleteMedia_next_def Let_def)

lemma guard_inv_mutation_error:
  assumes "guard_open (item_id (heap s ! r)) s"
  shows "guard_inv (toggleFavorite_error r s)"
    and "guard_inv (toggleTrash_error r s)"
    and "guard_inv (deleteMedia_error r s)"
  using guard_open_closed [OF assms]
  by (simp_all add: toggleFavorite_error_def toggleTrash_error_def deleteMedia_error_def
      guard_inv_def)

lemma remove_pending:
  assumes inv: "guard_inv s" and j: "j < length (subscriptions s)"
    and at: "subscriptions s ! j = (req, k)"
  shows "closure_ok (heap s) (req, k)"
    and "mutated_id req = None \<Longrightarrow>
      guard_inv (s\<lparr>subscriptions := take j (subscriptions s) @ drop (Suc j) (subscriptions s)\<rparr>)"
    and "mutated_id req = Some i \<Longrightarrow>
      guard_open i (s\<lparr>subscriptions := take j (subscriptions s) @ drop (Suc j) (subscriptions s)\<rparr>)"
proof -
  let ?xs = "take j (subscriptions s)" and ?ys = "drop (Suc j) (subscriptions s)"
  have split: "subscriptions s = ?xs @ (req, k) # ?ys"
    using id_take_nth_drop [OF j] at by simp
  have all: "list_all (closure_ok (heap s)) (?xs @ (req, k) # ?ys)"
    and dist: "distinct (pending_ids (?xs @ (req, k) # ?ys))"
    and ops: "set (pending_ids (?xs @ (req, k) # ?ys)) = operatingItems s"
    using inv split by (simp_all add: guard_inv_def)
  show "closure_ok (heap s) (req, k)"
    using all by simp
  show "guard_inv (s\<lparr>subscriptions := ?xs @ ?ys\<rparr>)" if "mutated_id req = None"
    using all dist ops that by (simp add: guard_inv_def pending_ids_append)
  show "guard_open i (s\<lparr>subscriptions := ?xs @ ?ys\<rparr>)" if "mutated_id req = Some i"
    using all dist ops that by (auto simp add: guard_open_def pending_ids_append)
qed

lemma guard_inv_complete:
  assumes inv: "guard_inv s" and fin: "complete lc j resp s = Some s'"
  shows "guard_inv s'"
proof -
  let ?s0 = "s\<lparr>subscriptions := take j (subscriptions s) @ drop (Suc j) (subscriptions s)\<rparr>"
  obtain req k where at: "subscriptions s ! j = (req, k)"
    by (cases "subscriptions s ! j")
  have j: "j < length (subscriptions s)"
    using fin by (simp add: complete_def split: if_splits)
  have del: "deliver lc k resp ?s0 = Some s'"
    using fin j at by (simp add: complete_def)
  note rm = remove_pending [OF inv j at]
  show ?thesis
  proof (cases k)
    case OnLoad
    then have "guard_inv ?s0" using rm(1) rm(2) by simp
    then show ?thesis
      using del OnLoad
      by (cases resp) (auto simp add: guard_inv_loadMedia_next guard_inv_loadMedia_error)
  next
    case (OnUpload f)
    then have "guard_inv ?s0" using rm(1) rm(2) by simp
    then show ?thesis
      using del OnUpload
      by (cases resp) (auto simp add: guard_inv_uploadFile_next guard_inv_uploadFile_error)
  next
    case OnStorage
    then have "guard_inv ?s0" using rm(1) rm(2) by simp
    then show ?thesis
      using del OnStorage
      by (cases resp) (auto simp add: guard_inv_storage_next guard_inv_storage_error)
  next
    case (OnFavorite r b)
    then have "mutated_id req = Some (item_id (heap s ! r))"
      using rm(1) by simp
    then have "guard_open (item_id (heap ?s0 ! r)) ?s0"
      using rm(3) by simp
    then show ?thesis
      using del OnFavorite
      by (cases resp) (auto simp add: guard_inv_toggleFavorite_next guard_inv_mutation_error)
  next
    case (OnTrash r b)
    then have "mutated_id req = Some (item_id (heap s ! r))"
      using rm(1) by simp
    then have "guard_open (item_id (heap ?s0 ! r)) ?s0"
      using rm(3) by simp
    then show ?thesis
      using del OnTrash
      by (cases resp) (auto simp add: guard_inv_toggleTrash_next guard_inv_mutation_error)
  next
    case (OnDelete r)
    then have "mutated_id req = Some (item_id (heap s ! r))"
      using rm(1) by simp
    then have "guard_open (item_id (heap ?s0 ! r)) ?s0"
      using rm(3) by simp
    then show ?thesis
      using del OnDelete
      by (cases resp) (auto simp add: guard_inv_deleteMedia_next guard_inv_mutation_error)
  qed
qed

lemma guard_inv_perform:
  assumes "guard_inv s" and "perform lc e s = Some s'"
  shows "guard_inv s'"
  using assms
  by (cases e)
    (auto simp add: guard_inv_setActiveTab guard_inv_search guard_inv_clearSearch
      guard_inv_uploadFile guard_inv_toggleFavorite guard_inv_toggleTrash guard_inv_deleteMedia
      guard_inv_complete split: if_splits)

lemma guard_inv_run: "guard_inv s \<Longrightarrow> run lc es s = Some s' \<Longrightarrow> guard_inv s'"
proof (induction es arbitrary: s)
  case Nil
  then show ?case by simp
next
  case (Cons e es)
  then show ?case
    by (auto split: option.splits dest: guard_inv_perform)
qed

lemma operatingItems_next:
  "operatingItems (toggleFavorite_next r b s) = operatingItems s - {item_id (heap s ! r)}"
  "operatingItems (toggleTrash_next r b st s) = operatingItems s - {item_id (heap s ! r)}"
  "operatingItems (deleteMedia_next r st s) = operatingItems s - {item_id (heap s ! r)}"
  "operatingItems (toggleFavorite_error r s) = operatingItems s - {item_id (heap s ! r)}"
  "operatingItems (toggleTrash_error r s) = operatingItems s - {item_id (heap s ! r)}"
  "operatingItems (deleteMedia_error r s) = operatingItems s - {item_id (heap s ! r)}"
  by (simp_all add: toggleFavorite_next_def toggleTrash_next_def deleteMedia_next_def
      toggleFavorite_error_def toggleTrash_error_def deleteMedia_error_def Let_def
      item_id_update loadMedia_def loadStorageSummary_def dispatch_def split: option.splits)

lemma complete_mutation:
  assumes inv: "guard_inv s" and j: "j < length (subscriptions s)"
    and mut: "mutated_id (fst (subscriptions s ! j)) = Some i"
    and resp: "resp = Mutated st \<or> resp = Failed e"
  shows "\<exists>s'. complete lc j resp s = Some s' \<and> i \<notin> operatingItems s' \<and> in_flight i s' = 0"
proof -
  obtain req k where at: "subscriptions s ! j = (req, k)"
    by (cases "subscriptions s ! j")
  have ok: "closure_ok (heap s) (req, k)"
    by (rule remove_pending(1) [OF inv j at])
  have "\<exists>s'. complete lc j resp s = Some s' \<and> i \<notin> operatingItems s'"
    using ok mut at j resp
    by (cases k) (auto simp add: complete_def operatingItems_next)
  then obtain s' where s': "complete lc j resp s = Some s'" "i \<notin> operatingItems s'"
    by blast
  have "guard_inv s'"
    by (rule guard_inv_complete [OF inv s'(1)])
  then have "in_flight i s' = 0"
    using s'(2) by (simp add: guard_inv_in_flight)
  then show ?thesis
    using s' by blast
qed

text \<open>
  C5. In every state the home page reaches from \<open>ngOnInit\<close>, for every item id: the
  number of pending mutation requests on the id is 1 when the id is in the guard and 0
  otherwise, so at most one request per id is outgoing and the guard is never stale. A
  call of \<open>toggleFavorite\<close>, \<open>toggleTrash\<close> or \<open>deleteMedia\<close> on an item whose
  id is in the guard changes nothing and sends nothing. A call on an item whose id is not
  in the guard dispatches its request from the state in which the id has already been
  added (a declined delete confirmation does nothing). When a pending mutation comes
  back, with success or with an error, its callback removes the id from the guard.
\<close>

theorem operation_guard_exclusive:
  assumes reach: "run lc es (ngOnInit (new_HomeComponent a)) = Some s"
  shows "in_flight i s = (if i \<in> operatingItems s then 1 else 0)
    \<and> (item_id (heap s ! r) \<in> operatingItems s \<longrightarrow>
          toggleFavorite r s = s \<and> toggleTrash r s = s \<and> deleteMedia r c s = s)
    \<and> (item_id (heap s ! r) \<notin> operatingItems s \<longrightarrow>
          toggleFavorite r s =
            dispatch (PATCH_favorite (item_id (heap s ! r)) (\<not> isFavorite (heap s ! r)))
              (OnFavorite r (\<not> isFavorite (heap s ! r)))
              (s\<lparr>operatingItems := insert (item_id (heap s ! r)) (operatingItems s)\<rparr>)
        \<and> toggleTrash r s =
            dispatch (PATCH_trash (item_id (heap s ! r)) (\<not> isDeleted (heap s ! r)))
              (OnTrash r (\<not> isDeleted (heap s ! r)))
              (s\<lparr>operatingItems := insert (item_id (heap s ! r)) (operatingItems s)\<rparr>)
        \<and> deleteMedia r True s =
            dispatch (DELETE_media (item_id (heap s ! r))) (OnDelete r)
              (s\<lparr>operatingItems := insert (item_id (heap s ! r)) (operatingItems s)\<rparr>)
        \<and> deleteMedia r False s = s)
    \<and> (j < length (subscriptions s) \<and> mutated_id (fst (subscriptions s ! j)) = Some i \<longrightarrow>
          (\<exists>s'. complete lc j (Mutated st) s = Some s' \<and> i \<notin> operatingItems s'
              \<and> in_flight i s' = 0)
        \<and> (\<exists>s'. complete lc j (Failed e) s = Some s' \<and> i \<notin> operatingItems s'
              \<and> in_flight i s' = 0))"
proof -
  have inv: "guard_inv s"
    by (rule guard_inv_run [OF guard_inv_init reach])
  have p1: "in_flight i s = (if i \<in> operatingItems s then 1 else 0)"
    by (rule guard_inv_in_flight [OF inv])
  have p2: "item_id (heap s ! r) \<in> operatingItems s \<longrightarrow>
      toggleFavorite r s = s \<and> toggleTrash r s = s \<and> deleteMedia r c s = s"
    by (simp add: toggleFavorite_def toggleTrash_def deleteMedia_def Let_def)
  have p3: "item_id (heap s ! r) \<notin> operatingItems s \<longrightarrow>
          toggleFavorite r s =
            dispatch (PATCH_favorite (item_id (heap s ! r)) (\<not> isFavorite (heap s ! r)))
              (OnFavorite r (\<not> isFavorite (heap s ! r)))
              (s\<lparr>operatingItems := insert (item_id (heap s ! r)) (operatingItems s)\<rparr>)
        \<and> toggleTrash r s =
            dispatch (PATCH_trash (item_id (heap s ! r)) (\<not> isDeleted (heap s ! r)))
              (OnTrash r (\<not> isDeleted (heap s ! r)))
              (s\<lparr>operatingItems := insert (item_id (heap s ! r)) (operatingItems s)\<rparr>)
        \<and> deleteMedia r True s =
            dispatch (DELETE_media (item_id (heap s ! r))) (OnDelete r)
              (s\<lparr>operatingItems := insert (item_id (heap s ! r)) (operatingItems s)\<rparr>)
        \<and> deleteMedia r False s = s"
    by (simp add: toggleFavorite_def toggleTrash_def deleteMedia_def Let_def)
  have p4: "j < length (subscriptions s) \<and> mutated_id (fst (subscriptions s ! j)) = Some i \<longrightarrow>
          (\<exists>s'. complete lc j (Mutated st) s = Some s' \<and> i \<notin> operatingItems s'
              \<and> in_flight i s' = 0)
        \<and> (\<exists>s'. complete lc j (Failed e) s = Some s' \<and> i \<notin> operatingItems s'
              \<and> in_flight i s' = 0)"
    using complete_mutation [OF inv, of j i "Mutated st" st e]
      complete_mutation [OF inv, of j i "Failed e" st e]
    by blast
  show ?thesis
    using p1 p2 p3 p4 by blast
qed

lemmas home_defs = run.simps perform.simps complete_def deliver.simps home_opened_def ngOnInit_def
  new_HomeComponent_def loadMedia_def loadStorageSummary_def dispatch_def tab_filters_def
  loadMedia_next_def applySearch_def toggleFavorite_def toggleTrash_def Let_def
  library_items_def sample_item_def trim_def double_click_def

lemma double_click_run:
  "map_option operatingItems (run sample_toLowerCase double_click home_opened) = Some {''m1''}"
  "map_option (\<lambda>s. map fst (subscriptions s)) (run sample_toLowerCase double_click home_opened)
     = Some [GET_storage, PATCH_favorite ''m1'' False]"
  by (simp_all add: home_defs)

lemma double_click_item:
  "map_option (\<lambda>s. item_id (heap s ! 0)) (run sample_toLowerCase double_click home_opened) = Some ''m1''"
  by (simp add: home_defs)

theorem operation_guard_exclusive_witness:
  "\<exists>s. run sample_toLowerCase double_click home_opened = Some s
     \<and> operatingItems s = {''m1''}
     \<and> map fst (subscriptions s) = [GET_storage, PATCH_favorite ''m1'' False]
     \<and> in_flight ''m1'' s = 1
     \<and> in_flight ''m2'' s = 0
     \<and> toggleFavorite 0 s = s \<and> toggleTrash 0 s = s \<and> deleteMedia 0 True s = s
     \<and> (\<exists>s'. complete sample_toLowerCase 1 (Failed unauthorized) s = Some s' \<and> ''m1'' \<notin> operatingItems s')"
proof -
  obtain s where s: "run sample_toLowerCase double_click home_opened = Some s"
    using double_click_run(1) by (cases "run sample_toLowerCase double_click home_opened") simp_all
  have ops: "operatingItems s = {''m1''}"
    using double_click_run(1) s by simp
  have subs: "map fst (subscriptions s) = [GET_storage, PATCH_favorite ''m1'' False]"
    using double_click_run(2) s by simp
  have item: "item_id (heap s ! 0) = ''m1''"
    using double_click_item s by simp
  have reach: "run sample_toLowerCase double_click (ngOnInit (new_HomeComponent signed_in)) = Some s"
    using s unfolding home_opened_def .
  have len: "length (subscriptions s) = 2"
    using arg_cong [OF subs, of length] by simp
  have second: "fst (subscriptions s ! 1) = PATCH_favorite ''m1'' False"
    using arg_cong [OF subs, of "\<lambda>xs. xs ! 1"] len by simp
  have pending: "1 < length (subscriptions s) \<and> mutated_id (fst (subscriptions s ! 1)) = Some ''m1''"
    using len second by simp
  have guarded: "item_id (heap s ! 0) \<in> operatingItems s" and free: "''m2'' \<notin> operatingItems s"
    using ops item by simp_all
  note T = operation_guard_exclusive [OF reach, of _ 0 True 1 None unauthorized]
  have m1: "in_flight ''m1'' s = 1"
    using conjunct1 [OF T [of "''m1''"]] guarded item by simp
  have m2: "in_flight ''m2'' s = 0"
    using conjunct1 [OF T [of "''m2''"]] free by simp
  have noop: "toggleFavorite 0 s = s \<and> toggleTrash 0 s = s \<and> deleteMedia 0 True s = s"
    by (rule mp [OF conjunct1 [OF conjunct2 [OF T [of "''m1''"]]] guarded])
  obtain s' where s': "complete sample_toLowerCase 1 (Failed unauthorized) s = Some s'" "''m1'' \<notin> operatingItems s'"
    using conjunct2 [OF mp [OF conjunct2 [OF conjunct2 [OF conjunct2 [OF T [of "''m1''"]]]] pending]]
    by (elim exE conjE)
  have rel: "\<exists>s'. complete sample_toLowerCase 1 (Failed unauthorized) s = Some s' \<and> ''m1'' \<notin> operatingItems s'"
    by (rule exI [of _ s'], rule conjI [OF s'(1) s'(2)])
  show ?thesis
    by (rule exI [of _ s]) (simp only: s ops subs m1 m2 noop rel simp_thms)
qed

section \<open>Toggles and the current view\<close>

lemmas home_eval = run.simps perform.simps complete_def deliver.simps home_opened_def ngOnInit_def
  new_HomeComponent_def loadMedia_def loadStorageSummary_def dispatch_def tab_filters_def
  loadMedia_next_def applySearch_def toggleTrash_def toggleTrash_next_def deleteMedia_def
  deleteMedia_next_def setActiveTab_def loadStorageSummary_next_def Let_def
  sample_item_def trim_def trashed_item_def

text \<open>
  C6. A successful toggle writes the requested state to the item object. On the trash tab,
  restoring the one trashed item that is shown leaves the view as it was: the item is
  still listed, now with \<open>isDeleted = False\<close>, and no re-fetch of the tab has been
  sent (the only request after the initial ones is the PATCH itself).
\<close>

theorem restored_item_stays_in_trash_view:
  "map_option (\<lambda>s. (activeTab s, filteredItems s, map isDeleted (heap s), subscriptions s, dispatched s))
     (run sample_toLowerCase restore_in_trash home_opened)
   = Some (''trash'', [0], [False], [(GET_storage, OnStorage)],
       [GET_media (tab_filters ''photos''), GET_storage, GET_media (tab_filters ''trash''),
        PATCH_trash ''m1'' False])"
  by (simp add: home_eval restore_in_trash_def)

section \<open>Quota refresh after a mutation\<close>

text \<open>
  C8. After a successful upload or permanent delete the quota summary is the one in the
  response when the response carries one; when it carries none, a storage request is
  sent (before the list is re-fetched) and its response replaces the summary. After a
  successful trash toggle the summary is the one in the response when the response
  carries one; when it carries none, the summary stays as it is and no storage request
  is sent.
\<close>

theorem quota_refresh_after_mutation:
  "storageSummary (uploadFile_next f (Some sm) s) = Some sm
   \<and> dispatched (uploadFile_next f (Some sm) s)
       = dispatched s @ [GET_media (tab_filters (activeTab s))]
   \<and> storageSummary (deleteMedia_next r (Some sm) s) = Some sm
   \<and> dispatched (deleteMedia_next r (Some sm) s)
       = dispatched s @ [GET_media (tab_filters (activeTab s))]
   \<and> dispatched (uploadFile_next f None s)
       = dispatched s @ [GET_storage, GET_media (tab_filters (activeTab s))]
   \<and> subscriptions (uploadFile_next f None s)
       = subscriptions s @ [(GET_storage, OnStorage), (GET_media (tab_filters (activeTab s)), OnLoad)]
   \<and> dispatched (deleteMedia_next r None s)
       = dispatched s @ [GET_storage, GET_media (tab_filters (activeTab s))]
   \<and> subscriptions (deleteMedia_next r None s)
       = subscriptions s @ [(GET_storage, OnStorage), (GET_media (tab_filters (activeTab s)), OnLoad)]
   \<and> deliver lc OnStorage (Summary sm) s = Some (loadStorageSummary_next sm s)
   \<and> storageSummary (loadStorageSummary_next sm s) = Some sm
   \<and> storageSummary (toggleTrash_next r b (Some sm) s) = Some sm
   \<and> storageSummary (toggleTrash_next r b None s) = storageSummary s
   \<and> dispatched (toggleTrash_next r b None s)
       = dispatched s @ (if activeTab s \<noteq> ''trash'' \<and> b
                         then [GET_media (tab_filters (activeTab s))] else [])"
  by (simp add: uploadFile_next_def deleteMedia_next_def toggleTrash_next_def
      loadStorageSummary_next_def loadStorageSummary_def loadMedia_def dispatch_def Let_def)

lemma browsing_fields:
  "heap browsing = library_items" "activeTab browsing = ''photos''"
  "dispatched browsing = [GET_media (tab_filters ''photos''), GET_storage]"
  "storageSummary browsing = None"
  by (simp_all add: browsing_def loadMedia_next_def Let_def applySearch_def home_opened_def
      ngOnInit_def loadStorageSummary_def loadMedia_def dispatch_def new_HomeComponent_def
      trim_def)

theorem quota_refresh_after_mutation_witness:
  "storageSummary (uploadFile_next ''a.png-1'' (Some some_summary) browsing) = Some some_summary
   \<and> dispatched (deleteMedia_next 0 None browsing)
       = [GET_media (tab_filters ''photos''), GET_storage, GET_storage,
          GET_media (tab_filters ''photos'')]
   \<and> storageSummary (toggleTrash_next 0 True None browsing) = None
   \<and> dispatched (toggleTrash_next 0 True None browsing)
       = [GET_media (tab_filters ''photos''), GET_storage, GET_media (tab_filters ''photos'')]"
  using quota_refresh_after_mutation [of "''a.png-1''" some_summary browsing 0 sample_toLowerCase True]
  by (simp add: browsing_fields)

text \<open>
  A trash toggle is not followed by a storage request. After a successful trash toggle
  whose response carries no storage summary, the summary is the one held before and the
  only request sent after the PATCH is the re-fetch of the list. After a permanent delete
  with such a response, a storage request follows the DELETE.
\<close>

theorem trash_toggle_skips_quota_refresh:
  "map_option (\<lambda>s. (storageSummary s, subscriptions s, dispatched s))
     (run sample_toLowerCase trash_without_summary home_opened)
   = Some (Some some_summary, [(GET_media (tab_filters ''photos''), OnLoad)],
       [GET_media (tab_filters ''photos''), GET_storage, PATCH_trash ''m1'' True,
        GET_media (tab_filters ''photos'')])
   \<and> map_option dispatched (run sample_toLowerCase delete_without_summary home_opened)
   = Some [GET_media (tab_filters ''photos''), GET_storage, DELETE_media ''m1'',
        GET_storage, GET_media (tab_filters ''photos'')]"
  by (simp add: home_eval trash_without_summary_def delete_without_summary_def)

section \<open>What the authenticate, logout and toggle paths do keep\<close>

text \<open>
  A successful login or registration stores the token and the serialised user together
  and publishes the user; a logout that runs removes both entries and publishes
  \<open>null\<close>.
\<close>

theorem authenticate_and_logout_keep_pair:
  "localStorage (handleAuthSuccess pf t u s) TOKEN_KEY = Some t
   \<and> localStorage (handleAuthSuccess pf t u s) USER_KEY = Some (JSON_stringify pf u)
   \<and> currentUserSubject (handleAuthSuccess pf t u s) = Some u
   \<and> (\<not> isLoggingOut s \<longrightarrow>
        localStorage (logout s) TOKEN_KEY = None
      \<and> localStorage (logout s) USER_KEY = None
      \<and> currentUserSubject (logout s) = None)"
  by (simp add: handleAuthSuccess_def setItem_def subject_next_def TOKEN_KEY_def USER_KEY_def
      logout_store logout_subject)

theorem authenticate_and_logout_keep_pair_witness:
  "localStorage signed_in TOKEN_KEY = Some live_token
   \<and> localStorage signed_in USER_KEY = Some (JSON_stringify sample_platform sample_user)
   \<and> localStorage (logout signed_in) TOKEN_KEY = None
   \<and> localStorage (logout signed_in) USER_KEY = None
   \<and> currentUserSubject (logout signed_in) = None"
  using authenticate_and_logout_keep_pair [of sample_platform live_token sample_user
      "new_AuthService sample_platform (\<lambda>k. None)"]
    authenticate_and_logout_keep_pair [of sample_platform live_token sample_user signed_in]
    signed_in_idle
  by (simp add: signed_in_def)

text \<open>
  A successful toggle writes the requested state to the item object. Un-favoriting on
  the favorites tab and trashing on any tab but the trash tab re-fetch the active tab; on
  the trash tab a trash toggle sends nothing and leaves the listed items as they were.
\<close>

theorem toggles_update_item_and_refetch:
  "(r < length (heap s) \<longrightarrow>
        isFavorite (heap (toggleFavorite_next r b s) ! r) = b
      \<and> isDeleted (heap (toggleTrash_next r b st s) ! r) = b)
   \<and> (activeTab s = ''favorites'' \<longrightarrow>
        dispatched (toggleFavorite_next r False s)
          = dispatched s @ [GET_media (tab_filters ''favorites'')])
   \<and> (activeTab s \<noteq> ''trash'' \<longrightarrow>
        dispatched (toggleTrash_next r True st s)
          = dispatched s @ [GET_media (tab_filters (activeTab s))])
   \<and> (activeTab s = ''trash'' \<longrightarrow>
        dispatched (toggleTrash_next r b st s) = dispatched s
      \<and> mediaItems (toggleTrash_next r b st s) = mediaItems s
      \<and> filteredItems (toggleTrash_next r b st s) = filteredItems s)"
  by (cases st)
    (simp_all add: toggleFavorite_next_def toggleTrash_next_def loadMedia_def dispatch_def Let_def)

theorem toggles_update_item_and_refetch_witness:
  "isFavorite (heap (toggleFavorite_next 0 False browsing) ! 0) = False
   \<and> isDeleted (heap (toggleTrash_next 0 True None browsing) ! 0) = True
   \<and> dispatched (toggleTrash_next 0 True None browsing)
       = [GET_media (tab_filters ''photos''), GET_storage, GET_media (tab_filters ''photos'')]"
  using toggles_update_item_and_refetch [of 0 browsing False None]
    toggles_update_item_and_refetch [of 0 browsing True None]
  by (simp add: browsing_fields library_items_def)

end
